theory Spec2Isabelle
  imports Main "HOL-Library.Multiset"
begin

section \<open>The game session engine (class GameEngine of gameEngine.js)\<close>

text \<open>
  The engine keeps three JavaScript maps, all keyed by the game identifier: the sessions
  (\<open>activeGames\<close>) and the two timer tables (\<open>gameTimers\<close>, \<open>turnTimers\<close>). Every method
  mutates them in place and may throw after it has already written to a session, so each
  method is a function from the engine to a pair: what the call produced (\<open>Inl\<close> the thrown
  error, \<open>Inr\<close> the returned value) and the engine as the call left it.

  What the environment supplies is a parameter: the clock reading of \<open>new Date()\<close> (one
  reading for each call of a method), the draws of \<open>Math.random()\<close>, the generated game
  identifier and the process configuration \<open>config.game\<close>. The overridable methods of the class
  (\<open>initializeGameData\<close>, \<open>validateAction\<close>, \<open>executeAction\<close>, \<open>getDefaultAction\<close>,
  \<open>filterPrivateData\<close>) are a record of functions of their arguments: a game type whose
  hook writes to the session by itself, or throws, is outside the model. Logging, the event
  emitter and the asynchronous \<open>saveGameState\<close> (which catches its own errors) write nothing
  to the three maps and are left out, and so is the \<open>rules\<close> blob, which the engine stores
  and never reads.
\<close>

subsection \<open>Data\<close>

text \<open>A value that \<open>currentTurn\<close> can hold: \<open>null\<close>, \<open>undefined\<close> (an array read out of
  range) or a player identifier.\<close>

datatype ident = JNull | JUndefined | JId string

datatype status = Waiting | Active | Ended

text \<open>\<open>Error msg\<close> is \<open>throw new Error(msg)\<close>; \<open>ReferenceError\<close> is what the runtime throws
  for an identifier that no enclosing scope binds.\<close>

datatype error = Error string | ReferenceError string

text \<open>The opaque game data: the empty object literal \<open>{}\<close> or a payload of the game type.\<close>

datatype 'd payload = EmptyObject | Payload 'd

record player =
  pid :: string
  pname :: string
  ready :: bool
  connected :: bool
  joinedAt :: nat
  lastActivity :: nat

record playerInput =
  inId :: string
  inName :: string

text \<open>\<open>gameConfig\<close>: the numbers are counts and milliseconds; an absent \<open>maxPlayers\<close> or
  \<open>turnTimeLimit\<close> is falsy like \<open>0\<close>.\<close>

record gameConfig =
  gameType :: string
  cfgMaxPlayers :: nat
  minPlayers :: nat
  cfgTurnTimeLimit :: nat

record 'd gameState =
  status :: status
  players :: "player list"
  currentTurn :: ident
  turnOrder :: "string list"
  gameData :: "'d payload"
  createdAt :: nat
  updatedAt :: nat
  startedAt :: "nat option"
  endedAt :: "nat option"
  endReason :: "string option"
  winner :: "string option"

record 'd game =
  gameId :: string
  config :: gameConfig
  state :: "'d gameState"
  maxPlayers :: nat
  turnTimeLimit :: nat

record 'd engine =
  activeGames :: "string \<rightharpoonup> 'd game"
  gameTimers :: "string \<rightharpoonup> nat"
  turnTimers :: "string \<rightharpoonup> nat"

text \<open>\<open>config.game\<close> of the process configuration.\<close>

record defaults =
  maxPlayersPerGame :: nat
  defaultTurnTimeLimit :: nat
  gameTimeout :: nat

record validation =
  valid :: bool
  verror :: string

record 'd actionResult =
  resGameData :: "'d payload"
  gameEnded :: bool
  resEndReason :: "string option"
  resWinner :: "string option"

text \<open>What \<open>getDefaultAction\<close> hands back, as \<open>if (defaultAction)\<close> sees it: \<open>null\<close> or
  \<open>undefined\<close>, another falsy value (\<open>0\<close>, the empty string, \<open>false\<close>) or a truthy value.\<close>

datatype 'a fallback = Nullish | Falsy 'a | Truthy 'a

record ('d, 'a) hooks =
  initializeGameData :: "'d game \<Rightarrow> 'd payload"
  validateAction :: "'d game \<Rightarrow> ident \<Rightarrow> 'a \<Rightarrow> validation"
  executeAction :: "'d game \<Rightarrow> ident \<Rightarrow> 'a \<Rightarrow> 'd actionResult"
  getDefaultAction :: "'d game \<Rightarrow> ident \<Rightarrow> 'a fallback"
  filterPrivateData :: "'d payload \<Rightarrow> ident \<Rightarrow> 'd payload"

text \<open>The methods as the base class defines them.\<close>

definition baseHooks :: "('d, 'a) hooks" where
  "baseHooks =
     \<lparr>initializeGameData = (\<lambda>game. EmptyObject),
      validateAction = (\<lambda>game playerId action. \<lparr>valid = True, verror = []\<rparr>),
      executeAction = (\<lambda>game playerId action.
         \<lparr>resGameData = gameData (state game), gameEnded = False,
          resEndReason = None, resWinner = None\<rparr>),
      getDefaultAction = (\<lambda>game playerId. Nullish),
      filterPrivateData = (\<lambda>data playerId. data)\<rparr>"

definition emptyEngine :: "'d engine" where
  "emptyEngine = \<lparr>activeGames = Map.empty, gameTimers = Map.empty, turnTimers = Map.empty\<rparr>"

subsection \<open>JavaScript primitives\<close>

text \<open>\<open>a || b\<close> on numbers: \<open>0\<close> is falsy.\<close>

definition jsOr :: "nat \<Rightarrow> nat \<Rightarrow> nat" where
  "jsOr a b = (if a \<noteq> 0 then a else b)"

text \<open>\<open>Array.prototype.findIndex\<close>: the first index whose element satisfies the test,
  \<open>-1\<close> when there is none.\<close>

fun findIndex :: "('a \<Rightarrow> bool) \<Rightarrow> 'a list \<Rightarrow> int" where
  "findIndex P [] = - 1"
| "findIndex P (x # xs) =
     (if P x then 0 else (let r = findIndex P xs in if r = - 1 then - 1 else r + 1))"

text \<open>\<open>Array.prototype.indexOf\<close> with strict equality, on an array of identifiers.\<close>

definition indexOf :: "string list \<Rightarrow> ident \<Rightarrow> int" where
  "indexOf xs v = findIndex (\<lambda>x. JId x = v) xs"

text \<open>\<open>a % b\<close> on integers: \<open>NaN\<close> (here \<open>None\<close>) when \<open>b\<close> is zero, otherwise the
  remainder with the sign of the dividend.\<close>

definition jsRem :: "int \<Rightarrow> int \<Rightarrow> int option" where
  "jsRem a b =
     (if b = 0 then None
      else Some (if a < 0 then - ((- a) mod \<bar>b\<bar>) else a mod \<bar>b\<bar>))"

text \<open>\<open>xs[i]\<close>: \<open>undefined\<close> when the index is \<open>NaN\<close> or out of range.\<close>

definition arrayGet :: "string list \<Rightarrow> int option \<Rightarrow> ident" where
  "arrayGet xs i =
     (case i of
        None \<Rightarrow> JUndefined
      | Some k \<Rightarrow> if 0 \<le> k \<and> k < int (length xs) then JId (xs ! nat k) else JUndefined)"

text \<open>\<open>xs.splice(i, 1)\<close> for an index in range.\<close>

definition splice1 :: "nat \<Rightarrow> 'a list \<Rightarrow> 'a list" where
  "splice1 i xs = take i xs @ drop (Suc i) xs"

text \<open>\<open>if (playerId)\<close>: \<open>null\<close>, \<open>undefined\<close> and the empty string are falsy.\<close>

definition truthy :: "ident \<Rightarrow> bool" where
  "truthy v = (case v of JId s \<Rightarrow> s \<noteq> [] | _ \<Rightarrow> False)"

subsection \<open>Turn order\<close>

text \<open>
  The loop \<open>for (let i = playerIds.length - 1; i > 0; i--)\<close> of \<open>generateTurnOrder\<close>, from
  index \<open>i\<close> downwards. \<open>rnd i\<close> stands for the draw \<open>Math.floor(Math.random() * (i + 1))\<close>
  of the pass with index \<open>i\<close>; \<open>Math.random()\<close> lies in \<open>[0, 1)\<close>, so the draw is one of
  \<open>0, \<dots>, i\<close>, which the reduction modulo \<open>i + 1\<close> states for every choice of \<open>rnd\<close>.
  The destructuring swap reads both elements before it writes.
\<close>

fun shuffleFrom :: "(nat \<Rightarrow> nat) \<Rightarrow> nat \<Rightarrow> string list \<Rightarrow> string list" where
  "shuffleFrom rnd 0 playerIds = playerIds"
| "shuffleFrom rnd (Suc i) playerIds =
     (let j = rnd (Suc i) mod (Suc i + 1)
      in shuffleFrom rnd i (playerIds[Suc i := playerIds ! j, j := playerIds ! Suc i]))"

text \<open>With no player the loop starts at \<open>-1\<close> and does not run; \<open>length [] - 1\<close> is \<open>0\<close> on
  \<open>nat\<close>, where \<open>shuffleFrom\<close> does not run either.\<close>

definition generateTurnOrder :: "(nat \<Rightarrow> nat) \<Rightarrow> player list \<Rightarrow> string list" where
  "generateTurnOrder rnd ps =
     (let playerIds = map pid ps in shuffleFrom rnd (length playerIds - 1) playerIds)"

subsection \<open>Timers\<close>

definition clearTurnTimer :: "'d engine \<Rightarrow> string \<Rightarrow> 'd engine" where
  "clearTurnTimer e gid =
     (case turnTimers e gid of
        None \<Rightarrow> e
      | Some timer \<Rightarrow> e\<lparr>turnTimers := (turnTimers e)(gid := None)\<rparr>)"

text \<open>
  \<open>setTurnTimer(gameId)\<close> clears the old timer and then evaluates the arguments of
  \<open>setTimeout(() => { this.handleTurnTimeout(gameId); }, game.turnTimeLimit)\<close>. The method
  declares no \<open>game\<close> (its only parameter is \<open>gameId\<close>), and neither does the module (its
  bindings are \<open>EventEmitter\<close>, \<open>logger\<close>, \<open>config\<close>, \<open>GameState\<close>, \<open>Player\<close>, \<open>GameEngine\<close>),
  so reading \<open>game.turnTimeLimit\<close> throws a ReferenceError: \<open>setTimeout\<close> is not called and
  \<open>this.turnTimers.set(gameId, timer)\<close> is not reached.
\<close>

definition setTurnTimer :: "'d engine \<Rightarrow> string \<Rightarrow> (error + unit) \<times> 'd engine" where
  "setTurnTimer e gid =
     (let e1 = clearTurnTimer e gid
      in (Inl (ReferenceError ''game is not defined''), e1))"

definition setGameTimeout :: "defaults \<Rightarrow> 'd engine \<Rightarrow> string \<Rightarrow> 'd engine" where
  "setGameTimeout cfg e gid = e\<lparr>gameTimers := (gameTimers e)(gid \<mapsto> gameTimeout cfg)\<rparr>"

definition clearGameTimers :: "'d engine \<Rightarrow> string \<Rightarrow> 'd engine" where
  "clearGameTimers e gid =
     (let e1 = (case gameTimers e gid of
                  None \<Rightarrow> e
                | Some gameTimer \<Rightarrow> e\<lparr>gameTimers := (gameTimers e)(gid := None)\<rparr>)
      in clearTurnTimer e1 gid)"

subsection \<open>Turns\<close>

text \<open>\<open>startTurn\<close> returns at once when the session is gone or when no participant has the
  identifier in \<open>currentTurn\<close>; otherwise it arms the turn timer (and then emits
  \<open>turnStarted\<close>).\<close>

definition startTurn :: "'d engine \<Rightarrow> string \<Rightarrow> (error + unit) \<times> 'd engine" where
  "startTurn e gid =
     (case activeGames e gid of
        None \<Rightarrow> (Inr (), e)
      | Some game \<Rightarrow>
          (case find (\<lambda>p. JId (pid p) = currentTurn (state game)) (players (state game)) of
             None \<Rightarrow> (Inr (), e)
           | Some currentPlayer \<Rightarrow>
               (case setTurnTimer e gid of
                  (Inl err, e1) \<Rightarrow> (Inl err, e1)
                | (Inr u, e1) \<Rightarrow> (Inr (), e1))))"

definition nextTurn :: "'d engine \<Rightarrow> string \<Rightarrow> (error + unit) \<times> 'd engine" where
  "nextTurn e gid =
     (case activeGames e gid of
        None \<Rightarrow> (Inr (), e)
      | Some game \<Rightarrow>
          (let e1 = clearTurnTimer e gid;
               currentIndex = indexOf (turnOrder (state game)) (currentTurn (state game));
               nextIndex = jsRem (currentIndex + 1) (int (length (turnOrder (state game))));
               game1 = game\<lparr>state := (state game)
                         \<lparr>currentTurn := arrayGet (turnOrder (state game)) nextIndex\<rparr>\<rparr>;
               e2 = e1\<lparr>activeGames := (activeGames e1)(gid \<mapsto> game1)\<rparr>
           in startTurn e2 gid))"

subsection \<open>Lifecycle\<close>

definition createGame ::
  "defaults \<Rightarrow> nat \<Rightarrow> 'd engine \<Rightarrow> string \<Rightarrow> gameConfig \<Rightarrow> 'd game \<times> 'd engine" where
  "createGame cfg now e gid gc =
     (let game = \<lparr>gameId = gid, config = gc,
                  state = \<lparr>status = Waiting, players = [], currentTurn = JNull,
                           turnOrder = [], gameData = EmptyObject, createdAt = now,
                           updatedAt = now, startedAt = None, endedAt = None,
                           endReason = None, winner = None\<rparr>,
                  maxPlayers = jsOr (cfgMaxPlayers gc) (maxPlayersPerGame cfg),
                  turnTimeLimit = jsOr (cfgTurnTimeLimit gc) (defaultTurnTimeLimit cfg)\<rparr>;
          e1 = e\<lparr>activeGames := (activeGames e)(gid \<mapsto> game)\<rparr>
      in (game, setGameTimeout cfg e1 gid))"

text \<open>\<open>endGame\<close> has no test of the status: it stamps the session whenever it is called.
  The removal from \<open>activeGames\<close> that it schedules for a minute later is the step \<open>purge\<close>.\<close>

definition endGame ::
  "nat \<Rightarrow> 'd engine \<Rightarrow> string \<Rightarrow> string option \<Rightarrow> string option \<Rightarrow> (error + unit) \<times> 'd engine"
  where
  "endGame now e gid reason win =
     (case activeGames e gid of
        None \<Rightarrow> (Inl (Error ''Game not found''), e)
      | Some game \<Rightarrow>
          (let game1 = game\<lparr>state := (state game)
                         \<lparr>status := Ended, endedAt := Some now, endReason := reason,
                          winner := win, updatedAt := now\<rparr>\<rparr>;
               e1 = e\<lparr>activeGames := (activeGames e)(gid \<mapsto> game1)\<rparr>
           in (Inr (), clearGameTimers e1 gid)))"

definition purge :: "'d engine \<Rightarrow> string \<Rightarrow> 'd engine" where
  "purge e gid = e\<lparr>activeGames := (activeGames e)(gid := None)\<rparr>"

text \<open>\<open>initializeGameData(game)\<close> sees the session with the status, the order and the turn
  already written.\<close>

definition startGame ::
  "('d, 'a) hooks \<Rightarrow> (nat \<Rightarrow> nat) \<Rightarrow> nat \<Rightarrow> 'd engine \<Rightarrow> string \<Rightarrow> (error + bool) \<times> 'd engine"
  where
  "startGame h rnd now e gid =
     (case activeGames e gid of
        None \<Rightarrow> (Inl (Error ''Game not found''), e)
      | Some game \<Rightarrow>
          if status (state game) \<noteq> Waiting then (Inl (Error ''Game is not in waiting status''), e)
          else if length (players (state game)) < minPlayers (config game)
          then (Inl (Error ''Not enough players to start game''), e)
          else
            (let order = generateTurnOrder rnd (players (state game));
                 game1 = game\<lparr>state := (state game)
                           \<lparr>status := Active, turnOrder := order,
                            currentTurn := arrayGet order (Some 0)\<rparr>\<rparr>;
                 game2 = game1\<lparr>state := (state game1)
                           \<lparr>gameData := initializeGameData h game1,
                            startedAt := Some now, updatedAt := now\<rparr>\<rparr>;
                 e1 = e\<lparr>activeGames := (activeGames e)(gid \<mapsto> game2)\<rparr>
             in (case startTurn e1 gid of
                   (Inl err, e2) \<Rightarrow> (Inl err, e2)
                 | (Inr u, e2) \<Rightarrow> (Inr True, e2))))"

definition checkGameStart ::
  "('d, 'a) hooks \<Rightarrow> (nat \<Rightarrow> nat) \<Rightarrow> nat \<Rightarrow> 'd engine \<Rightarrow> string \<Rightarrow> (error + unit) \<times> 'd engine"
  where
  "checkGameStart h rnd now e gid =
     (case activeGames e gid of
        None \<Rightarrow> (Inr (), e)
      | Some game \<Rightarrow>
          (let readyPlayers = filter ready (players (state game))
           in if length readyPlayers \<ge> minPlayers (config game) \<and>
                 length readyPlayers = length (players (state game))
              then (case startGame h rnd now e gid of
                      (Inl err, e1) \<Rightarrow> (Inl err, e1)
                    | (Inr b, e1) \<Rightarrow> (Inr (), e1))
              else (Inr (), e)))"

definition addPlayer ::
  "('d, 'a) hooks \<Rightarrow> (nat \<Rightarrow> nat) \<Rightarrow> nat \<Rightarrow> 'd engine \<Rightarrow> string \<Rightarrow> playerInput
     \<Rightarrow> (error + bool) \<times> 'd engine" where
  "addPlayer h rnd now e gid p =
     (case activeGames e gid of
        None \<Rightarrow> (Inl (Error ''Game not found''), e)
      | Some game \<Rightarrow>
          if length (players (state game)) \<ge> maxPlayers game then (Inl (Error ''Game is full''), e)
          else if find (\<lambda>q. pid q = inId p) (players (state game)) \<noteq> None
          then (Inl (Error ''Player already in game''), e)
          else
            (let gamePlayer = \<lparr>pid = inId p, pname = inName p, ready = False, connected = True,
                               joinedAt = now, lastActivity = now\<rparr>;
                 game1 = game\<lparr>state := (state game)
                           \<lparr>players := players (state game) @ [gamePlayer], updatedAt := now\<rparr>\<rparr>;
                 e1 = e\<lparr>activeGames := (activeGames e)(gid \<mapsto> game1)\<rparr>
             in (case (if length (players (state game1)) \<ge> minPlayers (config game1)
                       then checkGameStart h rnd now e1 gid else (Inr (), e1)) of
                   (Inl err, e2) \<Rightarrow> (Inl err, e2)
                 | (Inr u, e2) \<Rightarrow> (Inr True, e2))))"

text \<open>After \<open>nextTurn\<close> the method reads the same session object again, here looked up
  again (\<open>nextTurn\<close> never removes it).\<close>

definition removePlayer ::
  "nat \<Rightarrow> 'd engine \<Rightarrow> string \<Rightarrow> string \<Rightarrow> (error + bool) \<times> 'd engine" where
  "removePlayer now e gid playerId =
     (case activeGames e gid of
        None \<Rightarrow> (Inl (Error ''Game not found''), e)
      | Some game \<Rightarrow>
          (let playerIndex = findIndex (\<lambda>p. pid p = playerId) (players (state game))
           in if playerIndex = - 1 then (Inl (Error ''Player not found in game''), e)
              else
                (let game1 = game\<lparr>state := (state game)
                               \<lparr>players := splice1 (nat playerIndex) (players (state game)),
                                updatedAt := now\<rparr>\<rparr>;
                     e1 = e\<lparr>activeGames := (activeGames e)(gid \<mapsto> game1)\<rparr>
                 in (case (if status (state game1) = Active \<and>
                              currentTurn (state game1) = JId playerId
                           then nextTurn e1 gid else (Inr (), e1)) of
                       (Inl err, e2) \<Rightarrow> (Inl err, e2)
                     | (Inr u, e2) \<Rightarrow>
                         (case activeGames e2 gid of
                            None \<Rightarrow> (Inr True, e2)
                          | Some game2 \<Rightarrow>
                              if length (players (state game2)) < minPlayers (config game2) \<and>
                                 status (state game2) = Active
                              then (case endGame now e2 gid (Some ''insufficient_players'') None of
                                      (Inl err, e3) \<Rightarrow> (Inl err, e3)
                                    | (Inr u, e3) \<Rightarrow> (Inr True, e3))
                              else (Inr True, e2))))))"

definition processAction ::
  "('d, 'a) hooks \<Rightarrow> nat \<Rightarrow> 'd engine \<Rightarrow> string \<Rightarrow> ident \<Rightarrow> 'a
     \<Rightarrow> (error + 'd actionResult) \<times> 'd engine" where
  "processAction h now e gid playerId action =
     (case activeGames e gid of
        None \<Rightarrow> (Inl (Error ''Game not found''), e)
      | Some game \<Rightarrow>
          if status (state game) \<noteq> Active then (Inl (Error ''Game is not active''), e)
          else if currentTurn (state game) \<noteq> playerId then (Inl (Error ''Not your turn''), e)
          else
            (let validationResult = validateAction h game playerId action
             in if \<not> valid validationResult then (Inl (Error (verror validationResult)), e)
                else
                  (let result = executeAction h game playerId action;
                       game1 = game\<lparr>state := (state game)
                                 \<lparr>gameData := resGameData result, updatedAt := now\<rparr>\<rparr>;
                       e1 = e\<lparr>activeGames := (activeGames e)(gid \<mapsto> game1)\<rparr>
                   in if gameEnded result
                      then (case endGame now e1 gid (resEndReason result) (resWinner result) of
                              (Inl err, e2) \<Rightarrow> (Inl err, e2)
                            | (Inr u, e2) \<Rightarrow> (Inr result, e2))
                      else (case nextTurn e1 gid of
                              (Inl err, e2) \<Rightarrow> (Inl err, e2)
                            | (Inr u, e2) \<Rightarrow> (Inr result, e2)))))"

text \<open>\<open>getGameState\<close> spreads the state into a new object and, for a truthy viewer, assigns
  the filtered data to the \<open>gameData\<close> of that new object.\<close>

definition getGameState ::
  "('d, 'a) hooks \<Rightarrow> 'd engine \<Rightarrow> string \<Rightarrow> ident \<Rightarrow> (error + 'd gameState) \<times> 'd engine"
  where
  "getGameState h e gid playerId =
     (case activeGames e gid of
        None \<Rightarrow> (Inl (Error ''Game not found''), e)
      | Some game \<Rightarrow>
          (let copy = state game;
               copy1 = (if truthy playerId
                        then copy\<lparr>gameData := filterPrivateData h (gameData copy) playerId\<rparr>
                        else copy)
           in (Inr copy1, e)))"

subsection \<open>Timer expiry\<close>

text \<open>\<open>handleTurnTimeout\<close> submits the fallback action only when it is truthy; with any
  falsy one it goes on to the next turn.\<close>

definition handleTurnTimeout ::
  "('d, 'a) hooks \<Rightarrow> nat \<Rightarrow> 'd engine \<Rightarrow> string \<Rightarrow> (error + unit) \<times> 'd engine" where
  "handleTurnTimeout h now e gid =
     (case activeGames e gid of
        None \<Rightarrow> (Inr (), e)
      | Some game \<Rightarrow>
          (case getDefaultAction h game (currentTurn (state game)) of
             Truthy defaultAction \<Rightarrow>
               (case processAction h now e gid (currentTurn (state game)) defaultAction of
                  (Inl err, e1) \<Rightarrow> (Inl err, e1)
                | (Inr r, e1) \<Rightarrow> (Inr (), e1))
           | Falsy defaultAction \<Rightarrow> nextTurn e gid
           | Nullish \<Rightarrow> nextTurn e gid))"

definition handleGameTimeout ::
  "nat \<Rightarrow> 'd engine \<Rightarrow> string \<Rightarrow> (error + unit) \<times> 'd engine" where
  "handleGameTimeout now e gid = endGame now e gid (Some ''timeout'') None"

text \<open>The functions handed to \<open>setTimeout\<close>: \<open>() => { this.handleTurnTimeout(gameId); }\<close> and
  \<open>() => { this.handleGameTimeout(gameId); }\<close>. Neither has a \<open>try\<close>; what the pair holds on
  the left leaves the callback uncaught.\<close>

definition turnTimerCallback ::
  "('d, 'a) hooks \<Rightarrow> nat \<Rightarrow> 'd engine \<Rightarrow> string \<Rightarrow> (error + unit) \<times> 'd engine" where
  "turnTimerCallback h now e gid = handleTurnTimeout h now e gid"

definition gameTimerCallback ::
  "nat \<Rightarrow> 'd engine \<Rightarrow> string \<Rightarrow> (error + unit) \<times> 'd engine" where
  "gameTimerCallback now e gid = handleGameTimeout now e gid"

subsection \<open>The ready flag (SocketHandler.handlePlayerReady)\<close>

text \<open>
  The socket handler is the one caller that writes to a session from outside the engine:
  it sets \<open>ready\<close> on the first participant with the caller's identifier, stamps
  \<open>updatedAt\<close> and calls \<open>checkGameStart\<close>, inside a \<open>try\<close> that catches whatever is thrown.
\<close>

fun setReadyFirst :: "string \<Rightarrow> bool \<Rightarrow> player list \<Rightarrow> player list" where
  "setReadyFirst playerId r [] = []"
| "setReadyFirst playerId r (p # ps) =
     (if pid p = playerId then p\<lparr>ready := r\<rparr> # ps else p # setReadyFirst playerId r ps)"

definition handlePlayerReady ::
  "('d, 'a) hooks \<Rightarrow> (nat \<Rightarrow> nat) \<Rightarrow> nat \<Rightarrow> 'd engine \<Rightarrow> string \<Rightarrow> string \<Rightarrow> bool \<Rightarrow> 'd engine"
  where
  "handlePlayerReady h rnd now e gid playerId r =
     (case activeGames e gid of
        None \<Rightarrow> e
      | Some game \<Rightarrow>
          (let game1 = (if find (\<lambda>p. pid p = playerId) (players (state game)) \<noteq> None
                        then game\<lparr>state := (state game)
                               \<lparr>players := setReadyFirst playerId r (players (state game)),
                                updatedAt := now\<rparr>\<rparr>
                        else game);
               e1 = e\<lparr>activeGames := (activeGames e)(gid \<mapsto> game1)\<rparr>
           in snd (checkGameStart h rnd now e1 gid)))"

subsection \<open>Reachable engine states\<close>

text \<open>
  The states the engine can be in: the empty engine, and whatever a call of a method, the
  expiry of a timer or the scheduled removal of an ended session leaves behind, whether the
  call returned or threw. Clock readings, draws, identifiers and arguments are arbitrary.
\<close>

inductive reachable :: "('d, 'a) hooks \<Rightarrow> defaults \<Rightarrow> 'd engine \<Rightarrow> bool" for h cfg where
  r_init: "reachable h cfg emptyEngine"
| r_create: "reachable h cfg e \<Longrightarrow> reachable h cfg (snd (createGame cfg now e gid gc))"
| r_add: "reachable h cfg e \<Longrightarrow> reachable h cfg (snd (addPlayer h rnd now e gid p))"
| r_remove: "reachable h cfg e \<Longrightarrow> reachable h cfg (snd (removePlayer now e gid playerId))"
| r_start: "reachable h cfg e \<Longrightarrow> reachable h cfg (snd (startGame h rnd now e gid))"
| r_check: "reachable h cfg e \<Longrightarrow> reachable h cfg (snd (checkGameStart h rnd now e gid))"
| r_ready: "reachable h cfg e \<Longrightarrow> reachable h cfg (handlePlayerReady h rnd now e gid playerId r)"
| r_action: "reachable h cfg e \<Longrightarrow> reachable h cfg (snd (processAction h now e gid v action))"
| r_next: "reachable h cfg e \<Longrightarrow> reachable h cfg (snd (nextTurn e gid))"
| r_state: "reachable h cfg e \<Longrightarrow> reachable h cfg (snd (getGameState h e gid v))"
| r_end: "reachable h cfg e \<Longrightarrow> reachable h cfg (snd (endGame now e gid reason win))"
| r_turnTimer: "reachable h cfg e \<Longrightarrow> reachable h cfg (snd (turnTimerCallback h now e gid))"
| r_gameTimer: "reachable h cfg e \<Longrightarrow> reachable h cfg (snd (gameTimerCallback now e gid))"
| r_purge: "reachable h cfg e \<Longrightarrow> activeGames e gid = Some game
     \<Longrightarrow> status (state game) = Ended \<Longrightarrow> reachable h cfg (purge e gid)"

text \<open>\<open>n\<close> calls of \<open>nextTurn\<close> in a row on one session.\<close>

primrec nextTurns :: "nat \<Rightarrow> 'd engine \<Rightarrow> string \<Rightarrow> 'd engine" where
  "nextTurns 0 e gid = e"
| "nextTurns (Suc n) e gid = nextTurns n (snd (nextTurn e gid)) gid"

text \<open>What the invariants say of one session.\<close>

definition sessionOk :: "'d game \<Rightarrow> bool" where
  "sessionOk game \<longleftrightarrow>
     length (players (state game)) \<le> maxPlayers game \<and>
     distinct (map pid (players (state game))) \<and>
     distinct (turnOrder (state game)) \<and>
     (case currentTurn (state game) of
        JId p \<Rightarrow> p \<in> set (turnOrder (state game))
      | _ \<Rightarrow> True)"

definition engineOk :: "'d engine \<Rightarrow> bool" where
  "engineOk e \<longleftrightarrow> (\<forall>gid game. activeGames e gid = Some game \<longrightarrow> sessionOk game)"

text \<open>What holds of the timer tables: no turn timer is armed, and a game timer is armed only
  for a session that is in the registry and has not ended.\<close>

definition timersOk :: "'d engine \<Rightarrow> bool" where
  "timersOk e \<longleftrightarrow>
     (\<forall>gid. turnTimers e gid = None) \<and>
     (\<forall>gid. gameTimers e gid \<noteq> None \<longrightarrow>
        (\<exists>game. activeGames e gid = Some game \<and> status (state game) \<noteq> Ended))"

subsection \<open>Concrete sessions\<close>

definition cfg0 :: defaults where
  "cfg0 = \<lparr>maxPlayersPerGame = 8, defaultTurnTimeLimit = 30000, gameTimeout = 300000\<rparr>"

definition conf2 :: gameConfig where
  "conf2 = \<lparr>gameType = ''custom'', cfgMaxPlayers = 2, minPlayers = 2, cfgTurnTimeLimit = 30000\<rparr>"

definition conf3 :: gameConfig where
  "conf3 = \<lparr>gameType = ''custom'', cfgMaxPlayers = 3, minPlayers = 2, cfgTurnTimeLimit = 30000\<rparr>"

definition ann :: playerInput where
  "ann = \<lparr>inId = ''ann'', inName = ''Ann''\<rparr>"

definition bob :: playerInput where
  "bob = \<lparr>inId = ''bob'', inName = ''Bob''\<rparr>"

definition cyd :: playerInput where
  "cyd = \<lparr>inId = ''cyd'', inName = ''Cyd''\<rparr>"

text \<open>The draw that always picks \<open>j = i\<close>: the shuffle keeps the join order.\<close>

definition keep :: "nat \<Rightarrow> nat" where
  "keep i = i"

text \<open>For a game type \<open>h\<close>: a lobby of two (capacity two) and a lobby of three, each needing
  two to start, and the same sessions once \<open>startGame\<close> has been called.\<close>

definition lobby2 :: "(unit, unit) hooks \<Rightarrow> unit engine" where
  "lobby2 h =
     snd (addPlayer h keep 2
       (snd (addPlayer h keep 1
         (snd (createGame cfg0 0 emptyEngine ''g'' conf2)) ''g'' ann)) ''g'' bob)"

definition lobby3 :: "(unit, unit) hooks \<Rightarrow> unit engine" where
  "lobby3 h =
     snd (addPlayer h keep 3
       (snd (addPlayer h keep 2
         (snd (addPlayer h keep 1
           (snd (createGame cfg0 0 emptyEngine ''g'' conf3)) ''g'' ann)) ''g'' bob)) ''g'' cyd)"

definition lobby1 :: "(unit, unit) hooks \<Rightarrow> unit engine" where
  "lobby1 h = snd (addPlayer h keep 1 (snd (createGame cfg0 0 emptyEngine ''g'' conf2)) ''g'' ann)"

definition started2 :: "(unit, unit) hooks \<Rightarrow> unit engine" where
  "started2 h = snd (startGame h keep 5 (lobby2 h) ''g'')"

definition started3 :: "(unit, unit) hooks \<Rightarrow> unit engine" where
  "started3 h = snd (startGame h keep 5 (lobby3 h) ''g'')"

text \<open>Bob, who does not hold the turn, leaves the started session of three; then Ann, who
  holds it, acts.\<close>

definition bobLeft :: "unit engine" where
  "bobLeft = snd (removePlayer 6 (started3 baseHooks) ''g'' ''bob'')"

definition annActed :: "unit engine" where
  "annActed = snd (processAction baseHooks 7 bobLeft ''g'' (JId ''ann'') ())"

text \<open>The lobby of two, ended once by the game timer.\<close>

definition ended2 :: "unit engine" where
  "ended2 = snd (endGame 8 (lobby2 baseHooks) ''g'' (Some ''timeout'') None)"

section \<open>Properties\<close>

subsection \<open>What each method does to the sessions\<close>

lemma clearTurnTimer_games [simp]: "activeGames (clearTurnTimer e gid) = activeGames e"
  by (simp add: clearTurnTimer_def split: option.splits)

lemma clearTurnTimer_gameTimers [simp]: "gameTimers (clearTurnTimer e gid) = gameTimers e"
  by (simp add: clearTurnTimer_def split: option.splits)

lemma clearTurnTimer_turnTimers [simp]:
  "turnTimers (clearTurnTimer e gid) = (turnTimers e)(gid := None)"
  by (auto simp: clearTurnTimer_def split: option.splits)

lemma clearGameTimers_games [simp]: "activeGames (clearGameTimers e gid) = activeGames e"
  by (simp add: clearGameTimers_def split: option.splits)

lemma setTurnTimer_games [simp]: "activeGames (snd (setTurnTimer e gid)) = activeGames e"
  by (simp add: setTurnTimer_def)

lemma setTurnTimer_raises [simp]:
  "fst (setTurnTimer e gid) = Inl (ReferenceError ''game is not defined'')"
  by (simp add: setTurnTimer_def)

lemma startTurn_games [simp]: "activeGames (snd (startTurn e gid)) = activeGames e"
  by (simp add: startTurn_def setTurnTimer_def split: option.splits)

lemma rewrap_snd [simp]:
  "snd (case p of (Inl err, s) \<Rightarrow> (Inl err, s) | (Inr u, s) \<Rightarrow> (Inr (f u), s)) = snd p"
  by (cases p; cases "fst p"; simp)

lemma rewrap_fst [simp]:
  "fst (case p of (Inl err, s) \<Rightarrow> (Inl err, s) | (Inr u, s) \<Rightarrow> (Inr (f u), s)) =
     (case fst p of Inl err \<Rightarrow> Inl err | Inr u \<Rightarrow> Inr (f u))"
  by (cases p; cases "fst p"; simp)

lemma startTurn_result:
  "fst (startTurn e gid) =
     (case activeGames e gid of
        None \<Rightarrow> Inr ()
      | Some game \<Rightarrow>
          (case find (\<lambda>p. JId (pid p) = currentTurn (state game)) (players (state game)) of
             None \<Rightarrow> Inr ()
           | Some q \<Rightarrow> Inl (ReferenceError ''game is not defined'')))"
  by (simp add: startTurn_def setTurnTimer_def split: option.splits)

lemma nextTurn_games:
  "activeGames (snd (nextTurn e gid)) =
     (case activeGames e gid of
        None \<Rightarrow> activeGames e
      | Some game \<Rightarrow>
          (activeGames e)(gid \<mapsto> game\<lparr>state := (state game)
             \<lparr>currentTurn := arrayGet (turnOrder (state game))
                (jsRem (indexOf (turnOrder (state game)) (currentTurn (state game)) + 1)
                   (int (length (turnOrder (state game)))))\<rparr>\<rparr>))"
  by (simp add: nextTurn_def Let_def split: option.splits)

lemma endGame_games:
  "activeGames (snd (endGame now e gid reason win)) =
     (case activeGames e gid of
        None \<Rightarrow> activeGames e
      | Some game \<Rightarrow>
          (activeGames e)(gid \<mapsto> game\<lparr>state := (state game)
             \<lparr>status := Ended, endedAt := Some now, endReason := reason,
              winner := win, updatedAt := now\<rparr>\<rparr>))"
  by (simp add: endGame_def Let_def split: option.splits)

lemma arrayGet_in_set: "arrayGet xs i = JId p \<Longrightarrow> p \<in> set xs"
  by (auto simp: arrayGet_def nat_less_iff split: option.splits if_splits)

lemma sessionOk_turn:
  "sessionOk game \<Longrightarrow>
   sessionOk (game\<lparr>state := (state game)\<lparr>currentTurn := arrayGet (turnOrder (state game)) i\<rparr>\<rparr>)"
  by (auto simp: sessionOk_def split: ident.splits dest: arrayGet_in_set)

lemma sessionOk_end:
  "sessionOk game \<Longrightarrow>
   sessionOk (game\<lparr>state := (state game)
      \<lparr>status := Ended, endedAt := t, endReason := reason, winner := win, updatedAt := now\<rparr>\<rparr>)"
  by (simp add: sessionOk_def split: ident.splits)

lemma engineOk_upd:
  "engineOk e \<Longrightarrow> sessionOk game \<Longrightarrow> activeGames e' = (activeGames e)(gid \<mapsto> game) \<Longrightarrow> engineOk e'"
  by (simp add: engineOk_def)

lemma engineOk_same: "engineOk e \<Longrightarrow> activeGames e' = activeGames e \<Longrightarrow> engineOk e'"
  by (simp add: engineOk_def)

lemma engineOk_nextTurn: "engineOk e \<Longrightarrow> engineOk (snd (nextTurn e gid))"
proof (cases "activeGames e gid")
  case None
  assume "engineOk e"
  then show ?thesis using None by (auto intro: engineOk_same simp: nextTurn_games)
next
  case (Some game)
  assume ok: "engineOk e"
  then have "sessionOk game" using Some by (simp add: engineOk_def)
  then show ?thesis
    using ok Some by (auto intro!: engineOk_upd [OF ok sessionOk_turn] simp: nextTurn_games)
qed

lemma engineOk_endGame: "engineOk e \<Longrightarrow> engineOk (snd (endGame now e gid reason win))"
proof (cases "activeGames e gid")
  case None
  assume "engineOk e"
  then show ?thesis using None by (auto intro: engineOk_same simp: endGame_games)
next
  case (Some game)
  assume ok: "engineOk e"
  then have "sessionOk game" using Some by (simp add: engineOk_def)
  then show ?thesis
    using ok Some by (auto intro!: engineOk_upd [OF ok sessionOk_end] simp: endGame_games)
qed


lemma lobby2_game:
  "activeGames (lobby2 h) ''g'' = Some
     \<lparr>gameId = ''g'', config = conf2,
      state = \<lparr>status = Waiting,
               players = [\<lparr>pid = ''ann'', pname = ''Ann'', ready = False, connected = True,
                           joinedAt = 1, lastActivity = 1\<rparr>,
                          \<lparr>pid = ''bob'', pname = ''Bob'', ready = False, connected = True,
                           joinedAt = 2, lastActivity = 2\<rparr>],
               currentTurn = JNull, turnOrder = [], gameData = EmptyObject, createdAt = 0,
               updatedAt = 2, startedAt = None, endedAt = None, endReason = None,
               winner = None\<rparr>,
      maxPlayers = 2, turnTimeLimit = 30000\<rparr>"
  by (simp add: lobby2_def addPlayer_def createGame_def setGameTimeout_def emptyEngine_def
      checkGameStart_def conf2_def ann_def bob_def jsOr_def cfg0_def Let_def)

lemma keep_order2: "generateTurnOrder keep [p, q] = [pid p, pid q]"
  by (simp add: generateTurnOrder_def keep_def)

lemma keep_order3: "generateTurnOrder keep [p, q, r] = [pid p, pid q, pid r]"
  by (simp add: generateTurnOrder_def keep_def numeral_2_eq_2)

lemma started2_game:
  "initializeGameData h = (\<lambda>game. EmptyObject) \<Longrightarrow>
   activeGames (started2 h) ''g'' = Some
     \<lparr>gameId = ''g'', config = conf2,
      state = \<lparr>status = Active,
               players = [\<lparr>pid = ''ann'', pname = ''Ann'', ready = False, connected = True,
                           joinedAt = 1, lastActivity = 1\<rparr>,
                          \<lparr>pid = ''bob'', pname = ''Bob'', ready = False, connected = True,
                           joinedAt = 2, lastActivity = 2\<rparr>],
               currentTurn = JId ''ann'', turnOrder = [''ann'', ''bob''], gameData = EmptyObject,
               createdAt = 0, updatedAt = 5, startedAt = Some 5, endedAt = None,
               endReason = None, winner = None\<rparr>,
      maxPlayers = 2, turnTimeLimit = 30000\<rparr>"
  by (simp add: started2_def startGame_def lobby2_game keep_order2 arrayGet_def conf2_def
      Let_def)

lemma base_init: "initializeGameData baseHooks = (\<lambda>game. EmptyObject)"
  by (simp add: baseHooks_def)

lemma base_filter: "filterPrivateData baseHooks d v = d"
  by (simp add: baseHooks_def)

lemma base_default: "getDefaultAction baseHooks game v = Nullish"
  by (simp add: baseHooks_def)

lemmas started2_base = started2_game [OF base_init]

subsection \<open>Acting out of turn\<close>

text \<open>
  C5. On an active session, \<open>processAction\<close> called for an identifier other than
  \<open>currentTurn\<close> throws \<open>Not your turn\<close> and leaves the whole engine, and so \<open>gameData\<close>,
  \<open>currentTurn\<close> and every other field of the session, as it was.
\<close>

theorem processAction_not_your_turn:
  assumes "activeGames e gid = Some game"
    and "status (state game) = Active"
    and "currentTurn (state game) \<noteq> playerId"
  shows "processAction h now e gid playerId action = (Inl (Error ''Not your turn''), e)"
  using assms by (simp add: processAction_def)

theorem processAction_not_your_turn_witness:
  "processAction (baseHooks :: (unit, unit) hooks) 6 (started2 baseHooks) ''g'' (JId ''bob'') () =
     (Inl (Error ''Not your turn''), started2 baseHooks)"
  by (rule processAction_not_your_turn [OF started2_base]) simp_all

subsection \<open>Reading the state\<close>

text \<open>
  C10. \<open>getGameState\<close> on an existing session leaves the engine as it was, for every
  viewer; what it returns is the state of the session, with \<open>gameData\<close> replaced by the
  filtered data when the viewer is truthy and with every other field as the session has it.
\<close>

theorem getGameState_frame:
  assumes "activeGames e gid = Some game"
  shows "snd (getGameState h e gid viewer) = e \<and>
         fst (getGameState h e gid viewer) =
           Inr (if truthy viewer
                then (state game)\<lparr>gameData := filterPrivateData h (gameData (state game)) viewer\<rparr>
                else state game)"
  using assms by (simp add: getGameState_def Let_def)

theorem getGameState_frame_witness:
  "snd (getGameState (baseHooks :: (unit, unit) hooks) (started2 baseHooks) ''g'' (JId ''bob'')) =
     started2 baseHooks \<and>
   fst (getGameState (baseHooks :: (unit, unit) hooks) (started2 baseHooks) ''g'' (JId ''bob'')) =
     Inr (state (the (activeGames (started2 baseHooks) ''g'')))"
  using getGameState_frame [OF started2_base, of "baseHooks :: (unit, unit) hooks" "JId ''bob''"]
  by (simp add: base_filter truthy_def started2_base)

subsection \<open>The shuffle, array search and the session invariant\<close>

lemma length_shuffleFrom [simp]: "length (shuffleFrom rnd i xs) = length xs"
  by (induction i arbitrary: xs) (simp_all add: Let_def)

lemma mset_shuffleFrom: "i < length xs \<Longrightarrow> mset (shuffleFrom rnd i xs) = mset xs"
proof (induction i arbitrary: xs)
  case 0
  then show ?case by simp
next
  case (Suc i)
  let ?j = "rnd (Suc i) mod (Suc i + 1)"
  have "?j < Suc i + 1" by (rule mod_less_divisor) simp
  then have j: "?j < length xs" using Suc.prems by linarith
  have "mset (xs[Suc i := xs ! ?j, ?j := xs ! Suc i]) = mset xs"
    using j Suc.prems by (rule mset_swap)
  moreover have "i < length (xs[Suc i := xs ! ?j, ?j := xs ! Suc i])"
    using Suc.prems by simp
  ultimately show ?case
    using Suc.IH [of "xs[Suc i := xs ! ?j, ?j := xs ! Suc i]"] by (simp add: Let_def)
qed

lemma mset_generateTurnOrder: "mset (generateTurnOrder rnd ps) = mset (map pid ps)"
proof (cases ps)
  case Nil
  then show ?thesis by (simp add: generateTurnOrder_def)
next
  case (Cons p qs)
  then show ?thesis
    by (simp add: generateTurnOrder_def Let_def mset_shuffleFrom del: mset_map)
qed

lemma distinct_generateTurnOrder:
  "distinct (map pid ps) \<Longrightarrow> distinct (generateTurnOrder rnd ps)"
  using mset_eq_imp_distinct_iff [OF mset_generateTurnOrder [of rnd ps]] by simp

lemma distinct_splice1:
  assumes "distinct xs"
  shows "distinct (splice1 i xs)"
proof -
  have "set (take i xs) \<inter> set (drop (Suc i) xs) = {}"
    using assms by (rule set_take_disj_set_drop_if_distinct) simp
  then show ?thesis using assms by (simp add: splice1_def)
qed

lemma map_splice1: "map f (splice1 i xs) = splice1 i (map f xs)"
  by (simp add: splice1_def take_map drop_map)

lemma length_splice1: "length (splice1 i xs) \<le> length xs"
  by (simp add: splice1_def)

lemma findIndex_range: "findIndex P xs = - 1 \<or> (0 \<le> findIndex P xs \<and> findIndex P xs < int (length xs))"
  by (induction xs) (auto simp: Let_def)

lemma findIndex_step:
  "findIndex P (x # xs) = (if P x then 0 else if findIndex P xs = - 1 then - 1 else findIndex P xs + 1)"
  by (simp add: Let_def)

lemma findIndex_none: "findIndex P xs = - 1 \<longleftrightarrow> (\<forall>x \<in> set xs. \<not> P x)"
proof (induction xs)
  case Nil
  then show ?case by simp
next
  case (Cons x xs)
  have r: "0 \<le> findIndex P xs \<or> findIndex P xs = - 1" using findIndex_range [of P xs] by blast
  show ?case
  proof (cases "P x")
    case True
    then show ?thesis by (simp only: findIndex_step) simp
  next
    case False
    have "findIndex P xs + 1 \<noteq> - 1" if "0 \<le> findIndex P xs" using that by arith
    then have "(findIndex P (x # xs) = - 1) = (findIndex P xs = - 1)"
      using False r by (simp only: findIndex_step) auto
    then show ?thesis using False Cons.IH by simp
  qed
qed

lemma findIndex_holds: "findIndex P xs \<noteq> - 1 \<Longrightarrow> P (xs ! nat (findIndex P xs))"
proof (induction xs)
  case Nil
  then show ?case by simp
next
  case (Cons x xs)
  show ?case
  proof (cases "P x")
    case True
    then show ?thesis by (simp only: findIndex_step) simp
  next
    case False
    have r: "findIndex P xs \<noteq> - 1"
      using Cons.prems False by (simp only: findIndex_step if_False if_True split: if_splits) simp
    then have pos: "0 \<le> findIndex P xs" using findIndex_range [of P xs] by blast
    have eq: "findIndex P (x # xs) = findIndex P xs + 1"
      using False r by (simp only: findIndex_step if_False)
    have "nat (findIndex P xs + 1) = Suc (nat (findIndex P xs))" using pos by arith
    then show ?thesis using Cons.IH [OF r] by (simp only: eq nth_Cons_Suc)
  qed
qed

lemma findIndex_distinct:
  "distinct xs \<Longrightarrow> i < length xs \<Longrightarrow> findIndex (\<lambda>x. x = xs ! i) xs = int i"
proof (induction xs arbitrary: i)
  case Nil
  then show ?case by simp
next
  case (Cons x xs)
  show ?case
  proof (cases i)
    case 0
    then show ?thesis by (simp only: findIndex_step) simp
  next
    case (Suc k)
    with Cons.prems have k: "k < length xs" and d: "distinct xs" and ne: "x \<noteq> xs ! k"
      by auto
    have "findIndex (\<lambda>y. y = xs ! k) xs = int k" using Cons.IH [OF d k] .
    then show ?thesis using Suc ne by (simp only: findIndex_step) simp
  qed
qed

lemma indexOf_distinct:
  "distinct xs \<Longrightarrow> i < length xs \<Longrightarrow> indexOf xs (JId (xs ! i)) = int i"
  using findIndex_distinct [of xs i] by (simp add: indexOf_def)

lemma engineOk_startTurn [simp]: "engineOk (snd (startTurn e gid)) = engineOk e"
  by (simp add: engineOk_def)

lemma engineOk_clearGameTimers [simp]: "engineOk (clearGameTimers e gid) = engineOk e"
  by (simp add: engineOk_def)

lemma engineOk_updI:
  "engineOk e \<Longrightarrow> sessionOk game \<Longrightarrow> engineOk (e\<lparr>activeGames := (activeGames e)(gid \<mapsto> game)\<rparr>)"
  by (simp add: engineOk_def)

lemma engineOk_D: "engineOk e \<Longrightarrow> activeGames e gid = Some game \<Longrightarrow> sessionOk game"
  by (auto simp: engineOk_def)

lemma sessionOk_start:
  assumes "sessionOk game"
  shows "sessionOk (game\<lparr>state := (state game)
           \<lparr>status := st, turnOrder := generateTurnOrder rnd (players (state game)),
            currentTurn := arrayGet (generateTurnOrder rnd (players (state game))) i,
            gameData := d, startedAt := t, updatedAt := u\<rparr>\<rparr>)"
  using assms
  by (auto simp: sessionOk_def distinct_generateTurnOrder split: ident.splits
      dest: arrayGet_in_set)

lemma engineOk_startGame: "engineOk e \<Longrightarrow> engineOk (snd (startGame h rnd now e gid))"
  by (auto simp: startGame_def Let_def split: option.splits
      intro!: engineOk_updI sessionOk_start dest: engineOk_D)

lemma engineOk_checkGameStart: "engineOk e \<Longrightarrow> engineOk (snd (checkGameStart h rnd now e gid))"
  by (auto simp: checkGameStart_def Let_def engineOk_startGame split: option.splits)

subsection \<open>Every method keeps the session invariant\<close>

lemma engineOk_bind:
  assumes "engineOk (snd r)"
    and "\<And>u e2. engineOk e2 \<Longrightarrow> engineOk (snd (k u e2))"
  shows "engineOk (snd (case r of (Inl err, e2) \<Rightarrow> (Inl err, e2) | (Inr u, e2) \<Rightarrow> k u e2))"
  using assms by (cases r; cases "fst r") auto

lemma sessionOk_join:
  assumes "sessionOk game"
    and "\<not> maxPlayers game \<le> length (players (state game))"
    and "find (\<lambda>q. pid q = pid p) (players (state game)) = None"
  shows "sessionOk (game\<lparr>state := (state game)
           \<lparr>players := players (state game) @ [p], updatedAt := u\<rparr>\<rparr>)"
  using assms by (auto simp: sessionOk_def find_None_iff split: ident.splits)

lemma engineOk_addPlayer: "engineOk e \<Longrightarrow> engineOk (snd (addPlayer h rnd now e gid p))"
proof (cases "activeGames e gid")
  case None
  assume "engineOk e"
  then show ?thesis using None by (simp add: addPlayer_def)
next
  case (Some game)
  assume ok: "engineOk e"
  have g: "sessionOk game" using ok Some by (rule engineOk_D)
  show ?thesis
  proof (cases "maxPlayers game \<le> length (players (state game)) \<or>
      find (\<lambda>q. pid q = inId p) (players (state game)) \<noteq> None")
    case True
    then show ?thesis using ok Some by (auto simp: addPlayer_def)
  next
    case False
    let ?p = "\<lparr>pid = inId p, pname = inName p, ready = False, connected = True,
                joinedAt = now, lastActivity = now\<rparr>"
    let ?e1 = "e\<lparr>activeGames := (activeGames e)(gid \<mapsto> game\<lparr>state := (state game)
        \<lparr>players := players (state game) @ [?p], updatedAt := now\<rparr>\<rparr>)\<rparr>"
    have "sessionOk (game\<lparr>state := (state game)
        \<lparr>players := players (state game) @ [?p], updatedAt := now\<rparr>\<rparr>)"
      using g False by (intro sessionOk_join) simp_all
    with ok have ok1: "engineOk ?e1" by (rule engineOk_updI)
    have "engineOk (snd (checkGameStart h rnd now ?e1 gid))"
      using ok1 by (rule engineOk_checkGameStart)
    then show ?thesis using False Some ok1 by (simp add: addPlayer_def Let_def)
  qed
qed


lemma sessionOk_leave:
  assumes "sessionOk game"
  shows "sessionOk (game\<lparr>state := (state game)
           \<lparr>players := splice1 i (players (state game)), updatedAt := u\<rparr>\<rparr>)"
  using assms length_splice1 [of i "players (state game)"]
  by (auto simp: sessionOk_def map_splice1 distinct_splice1 split: ident.splits)

lemma engineOk_after_leave:
  "engineOk e2 \<Longrightarrow>
   engineOk (snd (case activeGames e2 gid of
      None \<Rightarrow> (Inr True, e2)
    | Some game2 \<Rightarrow>
        if length (players (state game2)) < minPlayers (config game2) \<and>
           status (state game2) = Active
        then (case endGame now e2 gid (Some ''insufficient_players'') None of
                (Inl err, e3) \<Rightarrow> (Inl err, e3)
              | (Inr u, e3) \<Rightarrow> (Inr True, e3))
        else (Inr True, e2)))"
  by (simp add: engineOk_endGame split: option.splits)

lemma engineOk_removePlayer: "engineOk e \<Longrightarrow> engineOk (snd (removePlayer now e gid playerId))"
proof (cases "activeGames e gid")
  case None
  assume "engineOk e"
  then show ?thesis using None by (simp add: removePlayer_def)
next
  case (Some game)
  assume ok: "engineOk e"
  have g: "sessionOk game" using ok Some by (rule engineOk_D)
  show ?thesis
  proof (cases "findIndex (\<lambda>p. pid p = playerId) (players (state game)) = - 1")
    case True
    then show ?thesis using ok Some by (simp add: removePlayer_def)
  next
    case False
    let ?g1 = "game\<lparr>state := (state game)
        \<lparr>players := splice1 (nat (findIndex (\<lambda>p. pid p = playerId) (players (state game))))
            (players (state game)), updatedAt := now\<rparr>\<rparr>"
    let ?e1 = "e\<lparr>activeGames := (activeGames e)(gid \<mapsto> ?g1)\<rparr>"
    let ?r = "if status (state ?g1) = Active \<and> currentTurn (state ?g1) = JId playerId
              then nextTurn ?e1 gid else (Inr (), ?e1)"
    have ok1: "engineOk ?e1" using ok sessionOk_leave [OF g] by (rule engineOk_updI)
    have okr: "engineOk (snd ?r)" using ok1 engineOk_nextTurn [OF ok1, of gid] by simp
    have "engineOk (snd (case ?r of
        (Inl err, e2) \<Rightarrow> (Inl err, e2)
      | (Inr u, e2) \<Rightarrow>
          (case activeGames e2 gid of
             None \<Rightarrow> (Inr True, e2)
           | Some game2 \<Rightarrow>
               if length (players (state game2)) < minPlayers (config game2) \<and>
                  status (state game2) = Active
               then (case endGame now e2 gid (Some ''insufficient_players'') None of
                       (Inl err, e3) \<Rightarrow> (Inl err, e3)
                     | (Inr u, e3) \<Rightarrow> (Inr True, e3))
               else (Inr True, e2))))"
      using okr by (rule engineOk_bind) (rule engineOk_after_leave)
    then show ?thesis using False Some by (simp add: removePlayer_def Let_def)
  qed
qed

lemma sessionOk_data:
  "sessionOk game \<Longrightarrow> sessionOk (game\<lparr>state := (state game)\<lparr>gameData := d, updatedAt := u\<rparr>\<rparr>)"
  by (simp add: sessionOk_def split: ident.splits)

lemma engineOk_processAction: "engineOk e \<Longrightarrow> engineOk (snd (processAction h now e gid v a))"
proof (cases "activeGames e gid")
  case None
  assume "engineOk e"
  then show ?thesis using None by (simp add: processAction_def)
next
  case (Some game)
  assume ok: "engineOk e"
  have g: "sessionOk game" using ok Some by (rule engineOk_D)
  let ?res = "executeAction h game v a"
  let ?e1 = "e\<lparr>activeGames := (activeGames e)(gid \<mapsto> game\<lparr>state := (state game)
        \<lparr>gameData := resGameData ?res, updatedAt := now\<rparr>\<rparr>)\<rparr>"
  have ok1: "engineOk ?e1" using ok sessionOk_data [OF g] by (rule engineOk_updI)
  have "engineOk (snd (endGame now ?e1 gid (resEndReason ?res) (resWinner ?res)))"
    using ok1 by (rule engineOk_endGame)
  moreover have "engineOk (snd (nextTurn ?e1 gid))" using ok1 by (rule engineOk_nextTurn)
  ultimately show ?thesis using ok Some by (simp add: processAction_def Let_def)
qed

lemma engineOk_handleTurnTimeout: "engineOk e \<Longrightarrow> engineOk (snd (handleTurnTimeout h now e gid))"
  by (simp add: handleTurnTimeout_def engineOk_processAction engineOk_nextTurn
      split: option.splits fallback.splits)

lemma map_pid_setReadyFirst [simp]: "map pid (setReadyFirst playerId r ps) = map pid ps"
  by (induction ps) simp_all

lemma length_setReadyFirst [simp]: "length (setReadyFirst playerId r ps) = length ps"
  by (induction ps) simp_all

lemma sessionOk_ready:
  "sessionOk game \<Longrightarrow>
   sessionOk (game\<lparr>state := (state game)
      \<lparr>players := setReadyFirst playerId r (players (state game)), updatedAt := u\<rparr>\<rparr>)"
  by (simp add: sessionOk_def split: ident.splits)

lemma engineOk_handlePlayerReady:
  "engineOk e \<Longrightarrow> engineOk (handlePlayerReady h rnd now e gid playerId r)"
proof (cases "activeGames e gid")
  case None
  assume "engineOk e"
  then show ?thesis using None by (simp add: handlePlayerReady_def)
next
  case (Some game)
  assume ok: "engineOk e"
  have g: "sessionOk game" using ok Some by (rule engineOk_D)
  let ?g1 = "if find (\<lambda>p. pid p = playerId) (players (state game)) \<noteq> None
             then game\<lparr>state := (state game)
                    \<lparr>players := setReadyFirst playerId r (players (state game)),
                     updatedAt := now\<rparr>\<rparr>
             else game"
  have "sessionOk ?g1" using g sessionOk_ready [OF g] by simp
  with ok have "engineOk (e\<lparr>activeGames := (activeGames e)(gid \<mapsto> ?g1)\<rparr>)"
    by (rule engineOk_updI)
  then have "engineOk (snd (checkGameStart h rnd now
      (e\<lparr>activeGames := (activeGames e)(gid \<mapsto> ?g1)\<rparr>) gid))"
    by (rule engineOk_checkGameStart)
  then show ?thesis using Some by (simp add: handlePlayerReady_def Let_def)
qed

lemma engineOk_createGame: "engineOk e \<Longrightarrow> engineOk (snd (createGame cfg now e gid gc))"
  by (simp add: createGame_def Let_def setGameTimeout_def engineOk_def sessionOk_def)

lemma engineOk_purge: "engineOk e \<Longrightarrow> engineOk (purge e gid)"
  by (simp add: purge_def engineOk_def)

lemma engineOk_getGameState: "engineOk e \<Longrightarrow> engineOk (snd (getGameState h e gid v))"
  by (simp add: getGameState_def Let_def split: option.splits)

lemma engineOk_empty: "engineOk emptyEngine"
  by (simp add: engineOk_def emptyEngine_def)

lemma reachable_engineOk: "reachable h cfg e \<Longrightarrow> engineOk e"
proof (induction rule: reachable.induct)
  case r_init
  show ?case by (rule engineOk_empty)
next
  case (r_turnTimer e now gid)
  then show ?case by (simp add: turnTimerCallback_def engineOk_handleTurnTimeout)
next
  case (r_gameTimer e now gid)
  then show ?case by (simp add: gameTimerCallback_def handleGameTimeout_def engineOk_endGame)
qed (simp_all add: engineOk_createGame engineOk_addPlayer engineOk_removePlayer
    engineOk_startGame engineOk_checkGameStart engineOk_handlePlayerReady
    engineOk_processAction engineOk_nextTurn engineOk_getGameState engineOk_endGame
    engineOk_purge)

subsection \<open>Whose turn it is\<close>

lemma lobby3_game:
  "activeGames (lobby3 h) ''g'' = Some
     \<lparr>gameId = ''g'', config = conf3,
      state = \<lparr>status = Waiting,
               players = [\<lparr>pid = ''ann'', pname = ''Ann'', ready = False, connected = True,
                           joinedAt = 1, lastActivity = 1\<rparr>,
                          \<lparr>pid = ''bob'', pname = ''Bob'', ready = False, connected = True,
                           joinedAt = 2, lastActivity = 2\<rparr>,
                          \<lparr>pid = ''cyd'', pname = ''Cyd'', ready = False, connected = True,
                           joinedAt = 3, lastActivity = 3\<rparr>],
               currentTurn = JNull, turnOrder = [], gameData = EmptyObject, createdAt = 0,
               updatedAt = 3, startedAt = None, endedAt = None, endReason = None,
               winner = None\<rparr>,
      maxPlayers = 3, turnTimeLimit = 30000\<rparr>"
  by (simp add: lobby3_def addPlayer_def createGame_def setGameTimeout_def emptyEngine_def
      checkGameStart_def conf3_def ann_def bob_def cyd_def jsOr_def cfg0_def Let_def)

lemma started3_game:
  "initializeGameData h = (\<lambda>game. EmptyObject) \<Longrightarrow>
   activeGames (started3 h) ''g'' = Some
     \<lparr>gameId = ''g'', config = conf3,
      state = \<lparr>status = Active,
               players = [\<lparr>pid = ''ann'', pname = ''Ann'', ready = False, connected = True,
                           joinedAt = 1, lastActivity = 1\<rparr>,
                          \<lparr>pid = ''bob'', pname = ''Bob'', ready = False, connected = True,
                           joinedAt = 2, lastActivity = 2\<rparr>,
                          \<lparr>pid = ''cyd'', pname = ''Cyd'', ready = False, connected = True,
                           joinedAt = 3, lastActivity = 3\<rparr>],
               currentTurn = JId ''ann'', turnOrder = [''ann'', ''bob'', ''cyd''],
               gameData = EmptyObject, createdAt = 0, updatedAt = 5, startedAt = Some 5,
               endedAt = None, endReason = None, winner = None\<rparr>,
      maxPlayers = 3, turnTimeLimit = 30000\<rparr>"
  by (simp add: started3_def startGame_def lobby3_game keep_order3 arrayGet_def conf3_def
      Let_def)

lemmas started3_base = started3_game [OF base_init]

lemma bobLeft_game:
  "activeGames bobLeft ''g'' = Some
     \<lparr>gameId = ''g'', config = conf3,
      state = \<lparr>status = Active,
               players = [\<lparr>pid = ''ann'', pname = ''Ann'', ready = False, connected = True,
                           joinedAt = 1, lastActivity = 1\<rparr>,
                          \<lparr>pid = ''cyd'', pname = ''Cyd'', ready = False, connected = True,
                           joinedAt = 3, lastActivity = 3\<rparr>],
               currentTurn = JId ''ann'', turnOrder = [''ann'', ''bob'', ''cyd''],
               gameData = EmptyObject, createdAt = 0, updatedAt = 6, startedAt = Some 5,
               endedAt = None, endReason = None, winner = None\<rparr>,
      maxPlayers = 3, turnTimeLimit = 30000\<rparr>"
  by (simp add: bobLeft_def removePlayer_def started3_base Let_def splice1_def conf3_def)

lemma annActed_game:
  "activeGames annActed ''g'' = Some
     \<lparr>gameId = ''g'', config = conf3,
      state = \<lparr>status = Active,
               players = [\<lparr>pid = ''ann'', pname = ''Ann'', ready = False, connected = True,
                           joinedAt = 1, lastActivity = 1\<rparr>,
                          \<lparr>pid = ''cyd'', pname = ''Cyd'', ready = False, connected = True,
                           joinedAt = 3, lastActivity = 3\<rparr>],
               currentTurn = JId ''bob'', turnOrder = [''ann'', ''bob'', ''cyd''],
               gameData = EmptyObject, createdAt = 0, updatedAt = 7, startedAt = Some 5,
               endedAt = None, endReason = None, winner = None\<rparr>,
      maxPlayers = 3, turnTimeLimit = 30000\<rparr>"
  by (simp add: annActed_def processAction_def bobLeft_game Let_def baseHooks_def
      nextTurn_games indexOf_def jsRem_def arrayGet_def)

lemma annActed_returns:
  "fst (processAction (baseHooks :: (unit, unit) hooks) 7 bobLeft ''g'' (JId ''ann'') ()) =
     Inr (executeAction baseHooks (the (activeGames bobLeft ''g'')) (JId ''ann'') ())"
  by (simp add: processAction_def bobLeft_game Let_def baseHooks_def nextTurn_def
      startTurn_def indexOf_def jsRem_def arrayGet_def)

lemma annActed_reachable: "reachable (baseHooks :: (unit, unit) hooks) cfg0 annActed"
  unfolding annActed_def bobLeft_def started3_def lobby3_def
  by (intro reachable.intros)

text \<open>
  C1, as stated, fails. A session of three is started in the order Ann, Bob, Cyd; Bob, who
  does not hold the turn, leaves; Ann acts. \<open>nextTurn\<close> takes the entry after Ann in the
  unchanged \<open>turnOrder\<close>, which is Bob, and \<open>startTurn\<close> returns without arming a timer
  because no participant has that identifier: \<open>currentTurn\<close> is the identifier of a player
  who is no longer in \<open>players\<close>.
\<close>

theorem currentTurn_departed_counterexample:
  "reachable (baseHooks :: (unit, unit) hooks) cfg0 annActed \<and>
   currentTurn (state (the (activeGames annActed ''g''))) = JId ''bob'' \<and>
   ''bob'' \<notin> set (map pid (players (state (the (activeGames annActed ''g'')))))"
  using annActed_reachable by (simp add: annActed_game)

text \<open>
  C1, amended. In every state the engine can reach, by any of its methods, a timer expiry or
  a purge, a \<open>currentTurn\<close> that is a player identifier (neither \<open>null\<close> nor \<open>undefined\<close>)
  is an element of \<open>turnOrder\<close>. Nothing is said of \<open>players\<close>: the rotation walks the
  fixed order and does not skip the identifiers of players who left.
\<close>

theorem currentTurn_in_turnOrder:
  assumes "reachable h cfg e"
    and "activeGames e gid = Some game"
    and "currentTurn (state game) = JId p"
  shows "p \<in> set (turnOrder (state game))"
proof -
  have "engineOk e" using assms(1) by (rule reachable_engineOk)
  then have "sessionOk game" using assms(2) by (rule engineOk_D)
  then show ?thesis using assms(3) by (simp add: sessionOk_def)
qed

theorem currentTurn_in_turnOrder_witness:
  "''bob'' \<in> set (turnOrder (state (the (activeGames annActed ''g''))))"
  using currentTurn_in_turnOrder [OF annActed_reachable annActed_game, of "''bob''"]
  by (simp add: annActed_game)

subsection \<open>Joining\<close>

lemma started3_reachable: "reachable (baseHooks :: (unit, unit) hooks) cfg0 (started3 baseHooks)"
  unfolding started3_def lobby3_def by (intro reachable.intros)

lemma lobby2_reachable: "reachable (h :: (unit, unit) hooks) cfg0 (lobby2 h)"
  unfolding lobby2_def by (intro reachable.intros)

lemma lobby1_reachable: "reachable (h :: (unit, unit) hooks) cfg0 (lobby1 h)"
  unfolding lobby1_def by (intro reachable.intros)

lemma lobby1_game:
  "activeGames (lobby1 h) ''g'' = Some
     \<lparr>gameId = ''g'', config = conf2,
      state = \<lparr>status = Waiting,
               players = [\<lparr>pid = ''ann'', pname = ''Ann'', ready = False, connected = True,
                           joinedAt = 1, lastActivity = 1\<rparr>],
               currentTurn = JNull, turnOrder = [], gameData = EmptyObject, createdAt = 0,
               updatedAt = 1, startedAt = None, endedAt = None, endReason = None,
               winner = None\<rparr>,
      maxPlayers = 2, turnTimeLimit = 30000\<rparr>"
  by (simp add: lobby1_def addPlayer_def createGame_def setGameTimeout_def emptyEngine_def
      checkGameStart_def conf2_def ann_def jsOr_def cfg0_def Let_def)

text \<open>
  C7. In every reachable state, before and after any call of \<open>addPlayer\<close>, a session has at
  most \<open>maxPlayers\<close> participants. \<open>addPlayer\<close> makes its tests in this order: on a session
  at capacity it throws \<open>Game is full\<close> and leaves the engine as it was; otherwise, with an
  identifier already present, it throws \<open>Player already in game\<close> and leaves the engine as
  it was.
\<close>

theorem addPlayer_capacity:
  assumes "reachable h cfg e"
    and "activeGames e gid = Some game"
  shows "length (players (state game)) \<le> maxPlayers game \<and>
         (\<forall>game'. activeGames (snd (addPlayer h rnd now e gid p)) gid = Some game' \<longrightarrow>
            length (players (state game')) \<le> maxPlayers game') \<and>
         (length (players (state game)) = maxPlayers game \<longrightarrow>
            addPlayer h rnd now e gid p = (Inl (Error ''Game is full''), e)) \<and>
         (length (players (state game)) < maxPlayers game \<and>
          inId p \<in> set (map pid (players (state game))) \<longrightarrow>
            addPlayer h rnd now e gid p = (Inl (Error ''Player already in game''), e))"
proof -
  have ok: "engineOk e" using assms(1) by (rule reachable_engineOk)
  have 1: "length (players (state game)) \<le> maxPlayers game"
    using engineOk_D [OF ok assms(2)] by (simp add: sessionOk_def)
  have "engineOk (snd (addPlayer h rnd now e gid p))" using ok by (rule engineOk_addPlayer)
  then have 2: "\<forall>game'. activeGames (snd (addPlayer h rnd now e gid p)) gid = Some game' \<longrightarrow>
            length (players (state game')) \<le> maxPlayers game'"
    by (auto simp: sessionOk_def dest: engineOk_D)
  have 3: "length (players (state game)) = maxPlayers game \<longrightarrow>
            addPlayer h rnd now e gid p = (Inl (Error ''Game is full''), e)"
    using assms(2) by (simp add: addPlayer_def)
  have "find (\<lambda>q. pid q = inId p) (players (state game)) \<noteq> None"
    if "inId p \<in> set (map pid (players (state game)))"
    using that by (auto simp: find_None_iff)
  then have 4: "length (players (state game)) < maxPlayers game \<and>
          inId p \<in> set (map pid (players (state game))) \<longrightarrow>
            addPlayer h rnd now e gid p = (Inl (Error ''Player already in game''), e)"
    using assms(2) by (simp add: addPlayer_def)
  show ?thesis using 1 2 3 4 by blast
qed

theorem addPlayer_capacity_witness:
  "addPlayer (baseHooks :: (unit, unit) hooks) keep 9 (lobby2 baseHooks) ''g'' cyd =
     (Inl (Error ''Game is full''), lobby2 baseHooks) \<and>
   addPlayer (baseHooks :: (unit, unit) hooks) keep 9 (lobby1 baseHooks) ''g'' ann =
     (Inl (Error ''Player already in game''), lobby1 baseHooks) \<and>
   length (players (state (the (activeGames (lobby2 baseHooks) ''g'')))) \<le>
     maxPlayers (the (activeGames (lobby2 baseHooks) ''g''))"
  using addPlayer_capacity [OF lobby2_reachable [of baseHooks] lobby2_game [of baseHooks],
      where rnd = keep and now = 9 and p = cyd]
    addPlayer_capacity [OF lobby1_reachable [of baseHooks] lobby1_game [of baseHooks],
      where rnd = keep and now = 9 and p = ann]
  by (simp add: lobby2_game ann_def)

subsection \<open>Rotation\<close>

lemma jsRem_next: "0 < k \<Longrightarrow> jsRem (int i + 1) (int k) = Some (int (Suc i mod k))"
proof -
  assume k: "0 < k"
  have "int i + 1 = int (Suc i)" by simp
  then have "(int i + 1) mod int k = int (Suc i mod k)" by (simp only: zmod_int)
  then show ?thesis using k by (simp add: jsRem_def)
qed

lemma arrayGet_nat: "m < length xs \<Longrightarrow> arrayGet xs (Some (int m)) = JId (xs ! m)"
  by (simp add: arrayGet_def)

lemma nextTurn_step:
  assumes "activeGames e gid = Some game"
    and "distinct (turnOrder (state game))"
    and "i < length (turnOrder (state game))"
    and "currentTurn (state game) = JId (turnOrder (state game) ! i)"
  shows "activeGames (snd (nextTurn e gid)) gid =
           Some (game\<lparr>state := (state game)\<lparr>currentTurn :=
             JId (turnOrder (state game) ! (Suc i mod length (turnOrder (state game))))\<rparr>\<rparr>)"
proof -
  let ?xs = "turnOrder (state game)"
  have k: "0 < length ?xs" using assms(3) by (cases "?xs") simp_all
  have "indexOf ?xs (currentTurn (state game)) = int i"
    using assms by (simp add: indexOf_distinct)
  moreover have "Suc i mod length ?xs < length ?xs" using k by (rule mod_less_divisor)
  ultimately show ?thesis
    using assms(1) k by (simp add: nextTurn_games jsRem_next arrayGet_nat)
qed

lemma nextTurns_from:
  assumes "distinct (turnOrder (state game))"
    and "i < length (turnOrder (state game))"
    and "activeGames e gid = Some game"
    and "currentTurn (state game) = JId (turnOrder (state game) ! i)"
  shows "\<exists>game'. activeGames (nextTurns n e gid) gid = Some game' \<and>
           turnOrder (state game') = turnOrder (state game) \<and>
           players (state game') = players (state game) \<and>
           currentTurn (state game') =
             JId (turnOrder (state game) ! ((i + n) mod length (turnOrder (state game))))"
  using assms
proof (induction n arbitrary: e game i)
  case 0
  then show ?case by simp
next
  case (Suc n)
  let ?xs = "turnOrder (state game)"
  let ?g1 = "game\<lparr>state := (state game)\<lparr>currentTurn := JId (?xs ! (Suc i mod length ?xs))\<rparr>\<rparr>"
  have step: "activeGames (snd (nextTurn e gid)) gid = Some ?g1"
    using Suc.prems(3,1,2,4) by (rule nextTurn_step)
  have "0 < length ?xs" using Suc.prems(2) by (cases "?xs") simp_all
  then have "Suc i mod length ?xs < length ?xs" by (rule mod_less_divisor)
  then have lt: "Suc i mod length ?xs < length (turnOrder (state ?g1))" by simp
  have "\<exists>game'. activeGames (nextTurns n (snd (nextTurn e gid)) gid) gid = Some game' \<and>
           turnOrder (state game') = turnOrder (state ?g1) \<and>
           players (state game') = players (state ?g1) \<and>
           currentTurn (state game') =
             JId (turnOrder (state ?g1) ! ((Suc i mod length ?xs + n) mod length (turnOrder (state ?g1))))"
    using Suc.prems(1) lt step by (intro Suc.IH) simp_all
  moreover have "(Suc i mod length ?xs + n) mod length ?xs = (i + Suc n) mod length ?xs"
    by (simp add: mod_add_left_eq)
  ultimately show ?case by simp
qed

text \<open>
  C6. In a reachable state, take a session whose \<open>turnOrder\<close> is not empty and whose
  \<open>currentTurn\<close> is its first entry. After \<open>n\<close> calls of \<open>nextTurn\<close> in a row the session
  is still there, its \<open>turnOrder\<close> (of length \<open>k\<close>) is the same, and \<open>currentTurn\<close> is the
  entry at index \<open>n mod k\<close>. This holds of every call that advances the turn, whether it
  then returns (the new holder has left) or throws in \<open>setTurnTimer\<close> (the new holder is
  present).
\<close>

theorem nextTurn_rotation:
  assumes "reachable h cfg e"
    and "activeGames e gid = Some game"
    and "turnOrder (state game) \<noteq> []"
    and "currentTurn (state game) = JId (turnOrder (state game) ! 0)"
  shows "\<exists>game'. activeGames (nextTurns n e gid) gid = Some game' \<and>
           turnOrder (state game') = turnOrder (state game) \<and>
           currentTurn (state game') =
             JId (turnOrder (state game) ! (n mod length (turnOrder (state game))))"
proof -
  have "engineOk e" using assms(1) by (rule reachable_engineOk)
  then have "sessionOk game" using assms(2) by (rule engineOk_D)
  then have d: "distinct (turnOrder (state game))" by (simp add: sessionOk_def)
  have z: "0 < length (turnOrder (state game))"
    using assms(3) by (cases "turnOrder (state game)") simp_all
  show ?thesis using nextTurns_from [OF d z assms(2) assms(4), of n] by auto
qed

theorem nextTurn_rotation_witness:
  "currentTurn (state (the (activeGames (nextTurns 4 (started3 baseHooks) ''g'') ''g''))) =
     JId ''bob''"
  using nextTurn_rotation [OF started3_reachable started3_base, of 4]
  by (auto simp: started3_base)

subsection \<open>Starting\<close>

lemma startGame_games:
  assumes "activeGames e gid = Some game"
    and "status (state game) = Waiting"
    and "minPlayers (config game) \<le> length (players (state game))"
  shows "activeGames (snd (startGame h rnd now e gid)) gid =
     Some (game\<lparr>state := (state game)
       \<lparr>status := Active,
        turnOrder := generateTurnOrder rnd (players (state game)),
        currentTurn := arrayGet (generateTurnOrder rnd (players (state game))) (Some 0),
        gameData := initializeGameData h (game\<lparr>state := (state game)
           \<lparr>status := Active,
            turnOrder := generateTurnOrder rnd (players (state game)),
            currentTurn := arrayGet (generateTurnOrder rnd (players (state game))) (Some 0)\<rparr>\<rparr>),
        startedAt := Some now, updatedAt := now\<rparr>\<rparr>)"
  using assms by (simp add: startGame_def Let_def)

lemma arrayGet_first: "xs \<noteq> [] \<Longrightarrow> arrayGet xs (Some 0) = JId (xs ! 0)"
  by (cases xs) (simp_all add: arrayGet_def)

lemma startGame_raises:
  assumes "activeGames e gid = Some game"
    and "status (state game) = Waiting"
    and "minPlayers (config game) \<le> length (players (state game))"
    and "players (state game) \<noteq> []"
  shows "fst (startGame h rnd now e gid) = Inl (ReferenceError ''game is not defined'') \<and>
         turnTimers (snd (startGame h rnd now e gid)) gid = None"
proof -
  let ?order = "generateTurnOrder rnd (players (state game))"
  have m: "mset ?order = mset (map pid (players (state game)))"
    by (rule mset_generateTurnOrder)
  have l: "length ?order = length (players (state game))"
    using mset_eq_length [OF m] by simp
  have "(?order = []) = (players (state game) = [])"
    unfolding length_0_conv [symmetric] using l by simp
  then have ne: "?order \<noteq> []" using assms(4) by simp
  have "?order ! 0 \<in> set ?order" using ne by simp
  then have "?order ! 0 \<in> set (map pid (players (state game)))"
    using mset_eq_setD [OF m] by simp
  then have "find (\<lambda>p. JId (pid p) = JId (?order ! 0)) (players (state game)) \<noteq> None"
    by (auto simp: find_None_iff)
  then show ?thesis
    using assms(1,2,3) ne
    by (auto simp: startGame_def Let_def startTurn_def setTurnTimer_def arrayGet_first)
qed

text \<open>
  C4. \<open>startGame\<close> on a waiting session with at least \<open>minPlayers\<close> participants leaves
  the participants as they were, sets \<open>turnOrder\<close> to a permutation of their identifiers
  (the same multiset, so the same length) and sets \<open>currentTurn\<close> to \<open>turnOrder[0]\<close>, for
  every sequence of draws. These are the fields of the session after the call, whether it
  returns or throws afterwards in \<open>startTurn\<close>.
\<close>

theorem startGame_turnOrder:
  assumes "activeGames e gid = Some game"
    and "status (state game) = Waiting"
    and "minPlayers (config game) \<le> length (players (state game))"
  shows "\<exists>game'. activeGames (snd (startGame h rnd now e gid)) gid = Some game' \<and>
           players (state game') = players (state game) \<and>
           mset (turnOrder (state game')) = mset (map pid (players (state game))) \<and>
           length (turnOrder (state game')) = length (players (state game)) \<and>
           currentTurn (state game') = arrayGet (turnOrder (state game')) (Some 0) \<and>
           (players (state game) \<noteq> [] \<longrightarrow>
              currentTurn (state game') = JId (turnOrder (state game') ! 0))"
proof -
  let ?order = "generateTurnOrder rnd (players (state game))"
  have m: "mset ?order = mset (map pid (players (state game)))"
    by (rule mset_generateTurnOrder)
  have l: "length ?order = length (players (state game))"
    using mset_eq_length [OF m] by simp
  have "(?order = []) = (players (state game) = [])"
    unfolding length_0_conv [symmetric] using l by simp
  then have "players (state game) \<noteq> [] \<longrightarrow> arrayGet ?order (Some 0) = JId (?order ! 0)"
    using arrayGet_first [of ?order] by simp
  then show ?thesis
    using startGame_games [OF assms, of h rnd now] m l by (simp del: mset_map)
qed

theorem startGame_turnOrder_witness:
  "mset (turnOrder (state (the (activeGames
      (snd (startGame (baseHooks :: (unit, unit) hooks) keep 5 (lobby3 baseHooks) ''g'')) ''g'')))) =
     mset [''ann'', ''bob'', ''cyd''] \<and>
   currentTurn (state (the (activeGames
      (snd (startGame (baseHooks :: (unit, unit) hooks) keep 5 (lobby3 baseHooks) ''g'')) ''g''))) =
     JId (turnOrder (state (the (activeGames
      (snd (startGame (baseHooks :: (unit, unit) hooks) keep 5 (lobby3 baseHooks) ''g'')) ''g''))) ! 0)"
  using startGame_turnOrder [OF lobby3_game [of baseHooks],
      of "baseHooks :: (unit, unit) hooks" keep 5]
  by (auto simp: conf3_def)

text \<open>
  C2 does not hold of the code. With at least one participant, \<open>startGame\<close> reaches
  \<open>setTurnTimer\<close> through \<open>startTurn\<close>, and \<open>setTurnTimer\<close> throws a ReferenceError: the call
  does not return \<open>true\<close> and no turn timer is armed. Here it is in the lobby of two.
\<close>

theorem startGame_throws_at_lobby2:
  "status (state (the (activeGames (lobby2 baseHooks) ''g''))) = Waiting \<and>
   minPlayers (config (the (activeGames (lobby2 baseHooks) ''g''))) \<le>
     length (players (state (the (activeGames (lobby2 baseHooks) ''g'')))) \<and>
   fst (startGame (baseHooks :: (unit, unit) hooks) keep 5 (lobby2 baseHooks) ''g'') =
     Inl (ReferenceError ''game is not defined'') \<and>
   turnTimers (snd (startGame (baseHooks :: (unit, unit) hooks) keep 5 (lobby2 baseHooks) ''g''))
     ''g'' = None"
  using startGame_raises [OF lobby2_game [of baseHooks], of "baseHooks :: (unit, unit) hooks" keep 5]
  by (simp add: lobby2_game conf2_def)

subsection \<open>Ending\<close>

lemma ended2_game:
  "activeGames ended2 ''g'' = Some
     \<lparr>gameId = ''g'', config = conf2,
      state = \<lparr>status = Ended,
               players = [\<lparr>pid = ''ann'', pname = ''Ann'', ready = False, connected = True,
                           joinedAt = 1, lastActivity = 1\<rparr>,
                          \<lparr>pid = ''bob'', pname = ''Bob'', ready = False, connected = True,
                           joinedAt = 2, lastActivity = 2\<rparr>],
               currentTurn = JNull, turnOrder = [], gameData = EmptyObject, createdAt = 0,
               updatedAt = 8, startedAt = None, endedAt = Some 8, endReason = Some ''timeout'',
               winner = None\<rparr>,
      maxPlayers = 2, turnTimeLimit = 30000\<rparr>"
  by (simp add: ended2_def endGame_games lobby2_game)

lemma clearGameTimers_idem:
  "clearGameTimers (clearGameTimers e gid) gid = clearGameTimers e gid"
  by (simp add: clearGameTimers_def clearTurnTimer_def split: option.splits)

lemma clearGameTimers_update:
  "clearGameTimers (e\<lparr>activeGames := m\<rparr>) gid = (clearGameTimers e gid)\<lparr>activeGames := m\<rparr>"
  by (simp add: clearGameTimers_def clearTurnTimer_def split: option.splits)

text \<open>
  C3, as stated, fails. \<open>endGame\<close> does not look at the status. The lobby of two was ended
  at time 8 with reason \<open>timeout\<close> and no winner; a second call at time 9 with reason
  \<open>abandoned\<close> and winner Bob is not a no-op: it replaces \<open>endReason\<close>, \<open>winner\<close> and
  \<open>endedAt\<close>.
\<close>

theorem endGame_twice_counterexample:
  "status (state (the (activeGames ended2 ''g''))) = Ended \<and>
   endReason (state (the (activeGames
      (snd (endGame 9 ended2 ''g'' (Some ''abandoned'') (Some ''bob''))) ''g''))) \<noteq>
     endReason (state (the (activeGames ended2 ''g''))) \<and>
   winner (state (the (activeGames
      (snd (endGame 9 ended2 ''g'' (Some ''abandoned'') (Some ''bob''))) ''g''))) \<noteq>
     winner (state (the (activeGames ended2 ''g''))) \<and>
   endedAt (state (the (activeGames
      (snd (endGame 9 ended2 ''g'' (Some ''abandoned'') (Some ''bob''))) ''g''))) \<noteq>
     endedAt (state (the (activeGames ended2 ''g'')))"
  by (simp add: endGame_games ended2_game)

text \<open>
  C3, amended. On a session that is in the registry, a second call of \<open>endGame\<close> after a
  first one does not throw and leaves the status \<open>ended\<close>, but it stamps the session again:
  \<open>endedAt\<close>, \<open>endReason\<close> and \<open>winner\<close> are those of the second call. The engine after two
  calls equals the engine after one when the second call has the same reason, the same winner
  and the same clock reading as the first.
\<close>

theorem endGame_again:
  assumes "activeGames e gid = Some game"
  shows "fst (endGame now2 (snd (endGame now1 e gid r1 w1)) gid r2 w2) = Inr () \<and>
         (\<exists>game2. activeGames (snd (endGame now2 (snd (endGame now1 e gid r1 w1)) gid r2 w2)) gid
              = Some game2 \<and>
            status (state game2) = Ended \<and> endedAt (state game2) = Some now2 \<and>
            endReason (state game2) = r2 \<and> winner (state game2) = w2 \<and>
            updatedAt (state game2) = now2) \<and>
         (now2 = now1 \<and> r2 = r1 \<and> w2 = w1 \<longrightarrow>
            snd (endGame now2 (snd (endGame now1 e gid r1 w1)) gid r2 w2) =
              snd (endGame now1 e gid r1 w1))"
  using assms
  by (simp add: endGame_def Let_def clearGameTimers_update clearGameTimers_idem)

theorem endGame_again_witness:
  "fst (endGame 8 ended2 ''g'' (Some ''timeout'') None) = Inr () \<and>
   snd (endGame 8 ended2 ''g'' (Some ''timeout'') None) = ended2 \<and>
   endReason (state (the (activeGames
      (snd (endGame 9 ended2 ''g'' (Some ''abandoned'') (Some ''bob''))) ''g''))) =
     Some ''abandoned''"
  using endGame_again [OF lobby2_game [of baseHooks], of 8 8 "Some ''timeout''" None
      "Some ''timeout''" None]
    endGame_again [OF lobby2_game [of baseHooks], of 9 8 "Some ''timeout''" None
      "Some ''abandoned''" "Some ''bob''"]
  by (auto simp: ended2_def)

subsection \<open>Every method keeps the timer tables in order\<close>

lemma timersOk_turn: "timersOk e \<Longrightarrow> turnTimers e gid = None"
  by (simp add: timersOk_def)

lemma clearTurnTimer_idle: "turnTimers e gid = None \<Longrightarrow> clearTurnTimer e gid = e"
  by (simp add: clearTurnTimer_def)

lemma startTurn_idle: "turnTimers e gid = None \<Longrightarrow> snd (startTurn e gid) = e"
  by (simp add: startTurn_def setTurnTimer_def clearTurnTimer_idle split: option.splits)

lemma timersOk_upd:
  assumes "timersOk e"
    and "activeGames e gid = Some game"
    and "status (state game') = status (state game) \<or> status (state game') \<noteq> Ended"
  shows "timersOk (e\<lparr>activeGames := (activeGames e)(gid \<mapsto> game')\<rparr>)"
  using assms by (auto simp: timersOk_def)

lemma timersOk_nextTurn: "timersOk e \<Longrightarrow> timersOk (snd (nextTurn e gid))"
proof (cases "activeGames e gid")
  case None
  assume "timersOk e"
  then show ?thesis using None by (simp add: nextTurn_def)
next
  case (Some game)
  assume ok: "timersOk e"
  have t: "turnTimers e gid = None" using ok by (rule timersOk_turn)
  let ?g1 = "game\<lparr>state := (state game)\<lparr>currentTurn := arrayGet (turnOrder (state game))
      (jsRem (indexOf (turnOrder (state game)) (currentTurn (state game)) + 1)
         (int (length (turnOrder (state game)))))\<rparr>\<rparr>"
  have "timersOk (e\<lparr>activeGames := (activeGames e)(gid \<mapsto> ?g1)\<rparr>)"
    using ok Some by (rule timersOk_upd) simp
  then show ?thesis
    using Some t by (simp add: nextTurn_def Let_def clearTurnTimer_idle startTurn_idle)
qed

lemma clearGameTimers_gameTimers [simp]:
  "gameTimers (clearGameTimers e gid) = (gameTimers e)(gid := None)"
  by (auto simp: clearGameTimers_def split: option.splits)

lemma clearGameTimers_turnTimers [simp]:
  "turnTimers (clearGameTimers e gid) = (turnTimers e)(gid := None)"
  by (auto simp: clearGameTimers_def split: option.splits)

lemma timersOk_endGame: "timersOk e \<Longrightarrow> timersOk (snd (endGame now e gid reason win))"
  by (auto simp: endGame_def Let_def timersOk_def split: option.splits)

lemma timersOk_bind:
  assumes "timersOk (snd r)"
    and "\<And>u e2. timersOk e2 \<Longrightarrow> timersOk (snd (k u e2))"
  shows "timersOk (snd (case r of (Inl err, e2) \<Rightarrow> (Inl err, e2) | (Inr u, e2) \<Rightarrow> k u e2))"
  using assms by (cases r; cases "fst r") auto

lemma timersOk_startGame: "timersOk e \<Longrightarrow> timersOk (snd (startGame h rnd now e gid))"
proof (cases "activeGames e gid")
  case None
  assume "timersOk e"
  then show ?thesis using None by (simp add: startGame_def)
next
  case (Some game)
  assume ok: "timersOk e"
  have t: "turnTimers e gid = None" using ok by (rule timersOk_turn)
  show ?thesis
  proof (cases "status (state game) = Waiting \<and>
      minPlayers (config game) \<le> length (players (state game))")
    case False
    then show ?thesis using ok Some by (auto simp: startGame_def)
  next
    case True
    have "timersOk (e\<lparr>activeGames := (activeGames e)(gid \<mapsto> g')\<rparr>)"
      if "status (state g') = Active" for g'
      using ok Some by (rule timersOk_upd) (simp add: that)
    then show ?thesis
      using True Some t by (simp add: startGame_def Let_def startTurn_idle)
  qed
qed

lemma timersOk_checkGameStart: "timersOk e \<Longrightarrow> timersOk (snd (checkGameStart h rnd now e gid))"
  by (auto simp: checkGameStart_def Let_def timersOk_startGame split: option.splits)

lemma timersOk_addPlayer: "timersOk e \<Longrightarrow> timersOk (snd (addPlayer h rnd now e gid p))"
proof (cases "activeGames e gid")
  case None
  assume "timersOk e"
  then show ?thesis using None by (simp add: addPlayer_def)
next
  case (Some game)
  assume ok: "timersOk e"
  show ?thesis
  proof (cases "maxPlayers game \<le> length (players (state game)) \<or>
      find (\<lambda>q. pid q = inId p) (players (state game)) \<noteq> None")
    case True
    then show ?thesis using ok Some by (auto simp: addPlayer_def)
  next
    case False
    let ?p = "\<lparr>pid = inId p, pname = inName p, ready = False, connected = True,
                joinedAt = now, lastActivity = now\<rparr>"
    let ?e1 = "e\<lparr>activeGames := (activeGames e)(gid \<mapsto> game\<lparr>state := (state game)
        \<lparr>players := players (state game) @ [?p], updatedAt := now\<rparr>\<rparr>)\<rparr>"
    have ok1: "timersOk ?e1" using ok Some by (rule timersOk_upd) simp
    have "timersOk (snd (checkGameStart h rnd now ?e1 gid))"
      using ok1 by (rule timersOk_checkGameStart)
    then show ?thesis using False Some ok1 by (simp add: addPlayer_def Let_def)
  qed
qed

lemma timersOk_after_leave:
  "timersOk e2 \<Longrightarrow>
   timersOk (snd (case activeGames e2 gid of
      None \<Rightarrow> (Inr True, e2)
    | Some game2 \<Rightarrow>
        if length (players (state game2)) < minPlayers (config game2) \<and>
           status (state game2) = Active
        then (case endGame now e2 gid (Some ''insufficient_players'') None of
                (Inl err, e3) \<Rightarrow> (Inl err, e3)
              | (Inr u, e3) \<Rightarrow> (Inr True, e3))
        else (Inr True, e2)))"
  by (simp add: timersOk_endGame split: option.splits)

lemma timersOk_removePlayer: "timersOk e \<Longrightarrow> timersOk (snd (removePlayer now e gid playerId))"
proof (cases "activeGames e gid")
  case None
  assume "timersOk e"
  then show ?thesis using None by (simp add: removePlayer_def)
next
  case (Some game)
  assume ok: "timersOk e"
  show ?thesis
  proof (cases "findIndex (\<lambda>p. pid p = playerId) (players (state game)) = - 1")
    case True
    then show ?thesis using ok Some by (simp add: removePlayer_def)
  next
    case False
    let ?g1 = "game\<lparr>state := (state game)
        \<lparr>players := splice1 (nat (findIndex (\<lambda>p. pid p = playerId) (players (state game))))
            (players (state game)), updatedAt := now\<rparr>\<rparr>"
    let ?e1 = "e\<lparr>activeGames := (activeGames e)(gid \<mapsto> ?g1)\<rparr>"
    let ?r = "if status (state ?g1) = Active \<and> currentTurn (state ?g1) = JId playerId
              then nextTurn ?e1 gid else (Inr (), ?e1)"
    have ok1: "timersOk ?e1" using ok Some by (rule timersOk_upd) simp
    have okr: "timersOk (snd ?r)" using ok1 timersOk_nextTurn [OF ok1, of gid] by simp
    have "timersOk (snd (case ?r of
        (Inl err, e2) \<Rightarrow> (Inl err, e2)
      | (Inr u, e2) \<Rightarrow>
          (case activeGames e2 gid of
             None \<Rightarrow> (Inr True, e2)
           | Some game2 \<Rightarrow>
               if length (players (state game2)) < minPlayers (config game2) \<and>
                  status (state game2) = Active
               then (case endGame now e2 gid (Some ''insufficient_players'') None of
                       (Inl err, e3) \<Rightarrow> (Inl err, e3)
                     | (Inr u, e3) \<Rightarrow> (Inr True, e3))
               else (Inr True, e2))))"
      using okr by (rule timersOk_bind) (rule timersOk_after_leave)
    then show ?thesis using False Some by (simp add: removePlayer_def Let_def)
  qed
qed

lemma timersOk_processAction: "timersOk e \<Longrightarrow> timersOk (snd (processAction h now e gid v a))"
proof (cases "activeGames e gid")
  case None
  assume "timersOk e"
  then show ?thesis using None by (simp add: processAction_def)
next
  case (Some game)
  assume ok: "timersOk e"
  let ?res = "executeAction h game v a"
  let ?e1 = "e\<lparr>activeGames := (activeGames e)(gid \<mapsto> game\<lparr>state := (state game)
        \<lparr>gameData := resGameData ?res, updatedAt := now\<rparr>\<rparr>)\<rparr>"
  have ok1: "timersOk ?e1" using ok Some by (rule timersOk_upd) simp
  have "timersOk (snd (endGame now ?e1 gid (resEndReason ?res) (resWinner ?res)))"
    using ok1 by (rule timersOk_endGame)
  moreover have "timersOk (snd (nextTurn ?e1 gid))" using ok1 by (rule timersOk_nextTurn)
  ultimately show ?thesis using ok Some by (simp add: processAction_def Let_def)
qed

lemma timersOk_handleTurnTimeout: "timersOk e \<Longrightarrow> timersOk (snd (handleTurnTimeout h now e gid))"
  by (simp add: handleTurnTimeout_def timersOk_processAction timersOk_nextTurn
      split: option.splits fallback.splits)

lemma timersOk_handlePlayerReady:
  "timersOk e \<Longrightarrow> timersOk (handlePlayerReady h rnd now e gid playerId r)"
proof (cases "activeGames e gid")
  case None
  assume "timersOk e"
  then show ?thesis using None by (simp add: handlePlayerReady_def)
next
  case (Some game)
  assume ok: "timersOk e"
  let ?g1 = "if find (\<lambda>p. pid p = playerId) (players (state game)) \<noteq> None
             then game\<lparr>state := (state game)
                    \<lparr>players := setReadyFirst playerId r (players (state game)),
                     updatedAt := now\<rparr>\<rparr>
             else game"
  have "timersOk (e\<lparr>activeGames := (activeGames e)(gid \<mapsto> ?g1)\<rparr>)"
    using ok Some by (rule timersOk_upd) simp
  then have "timersOk (snd (checkGameStart h rnd now
      (e\<lparr>activeGames := (activeGames e)(gid \<mapsto> ?g1)\<rparr>) gid))"
    by (rule timersOk_checkGameStart)
  then show ?thesis using Some by (simp add: handlePlayerReady_def Let_def)
qed

lemma timersOk_createGame: "timersOk e \<Longrightarrow> timersOk (snd (createGame cfg now e gid gc))"
  by (simp add: createGame_def Let_def setGameTimeout_def timersOk_def)

lemma timersOk_purge:
  "timersOk e \<Longrightarrow> activeGames e gid = Some game \<Longrightarrow> status (state game) = Ended
   \<Longrightarrow> timersOk (purge e gid)"
  by (auto simp: purge_def timersOk_def)

lemma timersOk_getGameState: "timersOk e \<Longrightarrow> timersOk (snd (getGameState h e gid v))"
  by (simp add: getGameState_def Let_def split: option.splits)

lemma timersOk_empty: "timersOk emptyEngine"
  by (simp add: timersOk_def emptyEngine_def)

lemma reachable_timersOk: "reachable h cfg e \<Longrightarrow> timersOk e"
proof (induction rule: reachable.induct)
  case r_init
  show ?case by (rule timersOk_empty)
next
  case (r_turnTimer e now gid)
  then show ?case by (simp add: turnTimerCallback_def timersOk_handleTurnTimeout)
next
  case (r_gameTimer e now gid)
  then show ?case by (simp add: gameTimerCallback_def handleGameTimeout_def timersOk_endGame)
next
  case (r_purge e gid game)
  then show ?case by (simp add: timersOk_purge)
qed (simp_all add: timersOk_createGame timersOk_addPlayer timersOk_removePlayer
    timersOk_startGame timersOk_checkGameStart timersOk_handlePlayerReady
    timersOk_processAction timersOk_nextTurn timersOk_getGameState timersOk_endGame)

subsection \<open>When a timer fires\<close>


lemma started2_reachable: "reachable (h :: (unit, unit) hooks) cfg0 (started2 h)"
  unfolding started2_def lobby2_def by (intro reachable.intros)


lemma started2_timeout_throws:
  "fst (turnTimerCallback (baseHooks :: (unit, unit) hooks) 9 (started2 baseHooks) ''g'') =
     Inl (ReferenceError ''game is not defined'')"
  by (simp add: turnTimerCallback_def handleTurnTimeout_def base_default started2_base
      nextTurn_def startTurn_def setTurnTimer_def indexOf_def jsRem_def arrayGet_def Let_def)



text \<open>
  C9 does not hold of the code. The session of two has been started: it is active, Ann
  holds the turn and the base \<open>getDefaultAction\<close> gives \<open>null\<close> for her. No turn timer is
  armed for it, so none fires and the turn stays with Ann however long she waits.
\<close>

theorem turn_timer_absent_at_started2:
  "status (state (the (activeGames (started2 baseHooks) ''g''))) = Active \<and>
   map pid (players (state (the (activeGames (started2 baseHooks) ''g'')))) = [''ann'', ''bob''] \<and>
   currentTurn (state (the (activeGames (started2 baseHooks) ''g''))) = JId ''ann'' \<and>
   getDefaultAction (baseHooks :: (unit, unit) hooks)
     (the (activeGames (started2 baseHooks) ''g'')) (JId ''ann'') = Nullish \<and>
   turnTimers (started2 baseHooks) ''g'' = None"
  using timersOk_turn [OF reachable_timersOk [OF started2_reachable [of baseHooks]], of "''g''"]
  by (simp add: started2_base base_default)

end
